theory Spec2Isabelle
  imports
    Complex_Main
    "HOL-Library.Char_ord"
    "HOL-Library.List_Lexorder"
    "HOL-Library.Product_Lexorder"
    "HOL-Library.Multiset"
begin

section \<open>The relational store\<close>

text \<open>
  \<^verbatim>\<open>database_operations.py\<close> holds one class, \<^verbatim>\<open>DatabaseOperations\<close>, whose methods
  each open a session, send one or more SQL statements, and shape the rows into
  dictionaries. The SQL text is part of the source, so the embedding gives every statement
  its meaning on tables that are lists of rows (list order is the store's native row order).

  A column that the code reads as possibly NULL (\<^verbatim>\<open>row[i] or ...\<close>, \<^verbatim>\<open>if row[i]\<close>) is an
  \<open>option\<close>; Python's \<^verbatim>\<open>None\<close> is \<open>None\<close>. Keys, the message timestamp and the role tag are
  taken as not NULL: a NULL role behaves like any role other than \<^verbatim>\<open>'user'\<close> and
  \<^verbatim>\<open>'assistant'\<close> in every comparison of the source. Timestamps are integers (ticks of
  the store's clock). A character of a string stands for one code point, and strings are
  compared by code point, the store's collation being outside the source.
\<close>

text \<open>Modelled from the spec: the declaration of table \<^verbatim>\<open>farmers\<close> (columns as selected
  by the source).\<close>

record farmer_row =
  fr_id :: int
  fr_farm_name :: "string option"
  fr_manager_name :: "string option"
  fr_manager_last_name :: "string option"
  fr_email :: "string option"
  fr_phone :: "string option"
  fr_city :: "string option"
  fr_wa_phone_number :: "string option"

text \<open>A calendar date, as \<^verbatim>\<open>datetime.date\<close>.\<close>

record date =
  year :: nat
  month :: nat
  day :: nat

text \<open>Modelled from the spec: the declaration of table \<^verbatim>\<open>fields\<close>.\<close>

record field_row =
  fd_field_id :: int
  fd_farmer_id :: int
  fd_field_name :: "string option"
  fd_field_size :: "rat option"
  fd_field_location :: "string option"
  fd_soil_type :: "string option"

text \<open>Modelled from the spec: the declaration of table \<^verbatim>\<open>field_crops\<close>.\<close>

record field_crop_row =
  fc_field_id :: int
  fc_crop_name :: "string option"
  fc_variety :: "string option"
  fc_planting_date :: "date option"
  fc_status :: "string option"

text \<open>Modelled from the spec: the declaration of table \<^verbatim>\<open>incoming_messages\<close>.\<close>

record message_row =
  m_id :: int
  m_farmer_id :: int
  m_phone_number :: "string option"
  m_message_text :: "string option"
  m_role :: string
  m_timestamp :: int

text \<open>
  The committed state of the store, as every reader sees it. \<open>msg_seq\<close> is the last
  identifier handed out for \<^verbatim>\<open>incoming_messages.id\<close> and \<open>clock\<close> the value of
  \<^verbatim>\<open>CURRENT_TIMESTAMP\<close>. Of table \<^verbatim>\<open>crop_protection_croatia\<close> the source only counts
  the rows. Table \<^verbatim>\<open>crop_technology\<close> is its \<^verbatim>\<open>crop_type\<close> column; a table \<open>x\<close> of the
  source is the field \<open>t_x\<close>.
\<close>

record db =
  t_farmers :: "farmer_row list"
  t_fields :: "field_row list"
  t_field_crops :: "field_crop_row list"
  t_incoming_messages :: "message_row list"
  t_crop_technology :: "string option list"
  crop_protection_croatia_rows :: nat
  msg_seq :: int
  clock :: int

subsection \<open>Failures of the store\<close>

text \<open>
  The two failures a statement can raise (both subclasses of \<^verbatim>\<open>Exception\<close>). What the
  store does to the \<open>n\<close>-th round trip of a call is given from outside: \<open>None\<close> lets it run,
  \<open>Some e\<close> makes it raise \<open>e\<close>. The session connects lazily, so an unreachable store shows
  at round trip \<open>0\<close>.
\<close>

datatype exn = ConnectivityFailure | StatementFailure

type_synonym faults = "nat \<Rightarrow> exn option"

definition no_faults :: faults where
  "no_faults = (\<lambda>n. None)"

definition unreachable :: faults where
  "unreachable = (\<lambda>n. Some ConnectivityFailure)"

definition fails_at :: "nat \<Rightarrow> faults" where
  "fails_at k = (\<lambda>n. if n = k then Some StatementFailure else None)"

text \<open>\<^verbatim>\<open>session.execute(text(...), params)\<close> as round trip \<open>n\<close>: the statement's own
  evaluation \<open>q\<close> may fail too.\<close>

definition execute :: "faults \<Rightarrow> nat \<Rightarrow> exn + 'a \<Rightarrow> exn + 'a" where
  "execute flt n q = (case flt n of Some e \<Rightarrow> Inl e | None \<Rightarrow> q)"

subsection \<open>SQL clauses\<close>

text \<open>\<^verbatim>\<open>LIMIT :limit\<close>; PostgreSQL rejects a negative count.\<close>

definition sql_limit :: "int \<Rightarrow> 'a list \<Rightarrow> exn + 'a list" where
  "sql_limit k rows = (if k < 0 then Inl StatementFailure else Inr (take (nat k) rows))"

text \<open>The sort key of \<^verbatim>\<open>ORDER BY col\<close> (ascending): NULL sorts after every value.\<close>

definition asc_key :: "string option \<Rightarrow> bool \<times> string" where
  "asc_key v = (case v of None \<Rightarrow> (True, []) | Some s \<Rightarrow> (False, s))"

text \<open>\<^verbatim>\<open>fetchone()\<close>: the first row, or \<^verbatim>\<open>None\<close>.\<close>

definition fetchone :: "'a list \<Rightarrow> 'a option" where
  "fetchone rows = (case rows of [] \<Rightarrow> None | r # _ \<Rightarrow> Some r)"

text \<open>\<^verbatim>\<open>SELECT DISTINCT ON (k)\<close> over sorted rows: the first row of every run of rows
  with equal \<open>k\<close>.\<close>

fun distinct_on :: "('a \<Rightarrow> 'k) \<Rightarrow> 'a list \<Rightarrow> 'a list" where
  "distinct_on k [] = []"
| "distinct_on k [x] = [x]"
| "distinct_on k (x # y # rows) =
     (if k x = k y then distinct_on k (x # rows) else x # distinct_on k (y # rows))"

subsection \<open>Python expressions on strings\<close>

text \<open>Truth value of a string or \<^verbatim>\<open>None\<close>.\<close>

definition truthy :: "string option \<Rightarrow> bool" where
  "truthy v = (case v of None \<Rightarrow> False | Some s \<Rightarrow> s \<noteq> [])"

text \<open>\<^verbatim>\<open>a or b\<close>.\<close>

definition py_or :: "string option \<Rightarrow> string option \<Rightarrow> string option" where
  "py_or a b = (if truthy a then a else b)"

text \<open>\<^verbatim>\<open>a or "literal"\<close>, which is always a string.\<close>

definition or_str :: "string option \<Rightarrow> string \<Rightarrow> string" where
  "or_str a d = (case a of None \<Rightarrow> d | Some s \<Rightarrow> if s = [] then d else s)"

text \<open>\<^verbatim>\<open>str.isspace\<close> on one character (code points below 256).\<close>

definition isspace :: "char \<Rightarrow> bool" where
  "isspace c = ((of_char c :: nat) \<in> {9, 10, 11, 12, 13, 28, 29, 30, 31, 32, 133, 160})"

text \<open>\<^verbatim>\<open>str.strip()\<close>.\<close>

definition strip :: "string \<Rightarrow> string" where
  "strip s = rev (dropWhile isspace (rev (dropWhile isspace s)))"

text \<open>\<^verbatim>\<open>f"{a} {b}".strip() if a and b else "Unknown"\<close>.\<close>

definition display_name :: "string option \<Rightarrow> string option \<Rightarrow> string" where
  "display_name a b =
     (case a of
        None \<Rightarrow> ''Unknown''
      | Some x \<Rightarrow>
          (case b of
             None \<Rightarrow> ''Unknown''
           | Some y \<Rightarrow> if x \<noteq> [] \<and> y \<noteq> [] then strip (x @ '' '' @ y) else ''Unknown''))"

text \<open>\<^verbatim>\<open>t[:100] + "..." if t and len(t) > 100 else t or ""\<close>.\<close>

definition truncate_message :: "string option \<Rightarrow> string" where
  "truncate_message t =
     (case t of
        None \<Rightarrow> or_str t []
      | Some x \<Rightarrow> if x \<noteq> [] \<and> length x > 100 then take 100 x @ ''...'' else or_str t [])"

text \<open>\<^verbatim>\<open>date.isoformat()\<close>: \<^verbatim>\<open>YYYY-MM-DD\<close>, zero padded.\<close>

definition digit :: "nat \<Rightarrow> char" where
  "digit n = char_of (48 + n mod 10)"

fun digits :: "nat \<Rightarrow> nat \<Rightarrow> string" where
  "digits 0 n = []"
| "digits (Suc w) n = digits w (n div 10) @ [digit n]"

definition isoformat :: "date \<Rightarrow> string" where
  "isoformat d = digits 4 (year d) @ ''-'' @ digits 2 (month d) @ ''-'' @ digits 2 (day d)"

text \<open>\<^verbatim>\<open>LOWER(...)\<close> on ASCII letters.\<close>

definition lower_char :: "char \<Rightarrow> char" where
  "lower_char c =
     (if 65 \<le> (of_char c :: nat) \<and> (of_char c :: nat) \<le> 90 then char_of (of_char c + 32 :: nat) else c)"

definition lower :: "string \<Rightarrow> string" where
  "lower s = map lower_char s"

section \<open>The operations\<close>

subsection \<open>\<^verbatim>\<open>get_farmer_info\<close>\<close>

record farmer_info =
  info_id :: int
  info_farm_name :: "string option"
  info_manager_name :: "string option"
  info_manager_last_name :: "string option"
  info_total_hectares :: int
  info_farmer_type :: string
  info_city :: "string option"
  info_wa_phone_number :: "string option"

definition select_farmer :: "db \<Rightarrow> int \<Rightarrow> farmer_row list" where
  "select_farmer s farmer_id = filter (\<lambda>r. fr_id r = farmer_id) (t_farmers s)"

definition farmer_info_of :: "farmer_row \<Rightarrow> farmer_info" where
  "farmer_info_of result =
     \<lparr> info_id = fr_id result,
       info_farm_name = fr_farm_name result,
       info_manager_name = fr_manager_name result,
       info_manager_last_name = fr_manager_last_name result,
       info_total_hectares = 0,
       info_farmer_type = ''Farm'',
       info_city = fr_city result,
       info_wa_phone_number = fr_wa_phone_number result \<rparr>"

text \<open>The body of the \<^verbatim>\<open>try\<close> block: \<open>Inl\<close> is a raised exception.\<close>

definition get_farmer_info_body :: "faults \<Rightarrow> db \<Rightarrow> int \<Rightarrow> exn + farmer_info option" where
  "get_farmer_info_body flt s farmer_id =
     (case execute flt 0 (Inr (select_farmer s farmer_id)) of
        Inl e \<Rightarrow> Inl e
      | Inr rows \<Rightarrow>
          (case fetchone rows of
             Some result \<Rightarrow> Inr (Some (farmer_info_of result))
           | None \<Rightarrow> Inr None))"

text \<open>\<^verbatim>\<open>except Exception\<close>: log, return \<^verbatim>\<open>None\<close>.\<close>

definition get_farmer_info :: "faults \<Rightarrow> db \<Rightarrow> int \<Rightarrow> farmer_info option" where
  "get_farmer_info flt s farmer_id =
     (case get_farmer_info_body flt s farmer_id of Inl e \<Rightarrow> None | Inr v \<Rightarrow> v)"

subsection \<open>\<^verbatim>\<open>get_all_farmers\<close>\<close>

record farmer_summary =
  sum_id :: int
  sum_name :: string
  sum_farm_name :: string
  sum_phone :: string
  sum_location :: string
  sum_farm_type :: string
  sum_total_size_ha :: rat

text \<open>\<^verbatim>\<open>SELECT ... FROM farmers ORDER BY farm_name LIMIT :limit\<close>.\<close>

definition select_all_farmers :: "db \<Rightarrow> int \<Rightarrow> exn + farmer_row list" where
  "select_all_farmers s limit =
     sql_limit limit (sort_key (\<lambda>r. asc_key (fr_farm_name r)) (t_farmers s))"

definition farmer_summary_of :: "farmer_row \<Rightarrow> farmer_summary" where
  "farmer_summary_of row =
     \<lparr> sum_id = fr_id row,
       sum_name = display_name (fr_manager_name row) (fr_manager_last_name row),
       sum_farm_name = or_str (fr_farm_name row) ''Unknown Farm'',
       sum_phone = or_str (py_or (fr_phone row) (fr_wa_phone_number row)) [],
       sum_location = or_str (fr_city row) [],
       sum_farm_type = ''Farm'',
       sum_total_size_ha = 0 \<rparr>"

definition get_all_farmers_body :: "faults \<Rightarrow> db \<Rightarrow> int \<Rightarrow> exn + farmer_summary list" where
  "get_all_farmers_body flt s limit =
     (case execute flt 0 (select_all_farmers s limit) of
        Inl e \<Rightarrow> Inl e
      | Inr results \<Rightarrow> Inr (map farmer_summary_of results))"

definition get_all_farmers :: "faults \<Rightarrow> db \<Rightarrow> int \<Rightarrow> farmer_summary list" where
  "get_all_farmers flt s limit =
     (case get_all_farmers_body flt s limit of Inl e \<Rightarrow> [] | Inr v \<Rightarrow> v)"

subsection \<open>\<^verbatim>\<open>get_farmer_fields\<close>\<close>

text \<open>\<^verbatim>\<open>float(row[2])\<close> is taken as exact: the size is a rational.\<close>

record field_view =
  fv_field_id :: int
  fv_field_name :: "string option"
  fv_field_size :: rat
  fv_field_location :: "string option"
  fv_soil_type :: "string option"
  fv_current_crop :: "string option"
  fv_variety :: "string option"
  fv_planting_date :: "string option"
  fv_crop_status :: "string option"

text \<open>\<^verbatim>\<open>fields f LEFT JOIN field_crops fc ON f.field_id = fc.field_id AND fc.status = 'active'\<close>
  for one row of \<^verbatim>\<open>fields\<close>: a field without a match is kept, with NULL in the columns of
  \<^verbatim>\<open>fc\<close>.\<close>

definition active_crops :: "db \<Rightarrow> field_row \<Rightarrow> field_crop_row list" where
  "active_crops s f =
     filter (\<lambda>fc. fd_field_id f = fc_field_id fc \<and> fc_status fc = Some ''active'') (t_field_crops s)"

definition left_join_crops :: "db \<Rightarrow> field_row \<Rightarrow> (field_row \<times> field_crop_row option) list" where
  "left_join_crops s f =
     (case active_crops s f of
        [] \<Rightarrow> [(f, None)]
      | fc # fcs \<Rightarrow> map (\<lambda>c. (f, Some c)) (fc # fcs))"

definition select_farmer_fields :: "db \<Rightarrow> int \<Rightarrow> (field_row \<times> field_crop_row option) list" where
  "select_farmer_fields s farmer_id =
     sort_key (\<lambda>row. asc_key (fd_field_name (fst row)))
       (concat (map (left_join_crops s) (filter (\<lambda>f. fd_farmer_id f = farmer_id) (t_fields s))))"

definition field_view_of :: "field_row \<times> field_crop_row option \<Rightarrow> field_view" where
  "field_view_of row =
     \<lparr> fv_field_id = fd_field_id (fst row),
       fv_field_name = fd_field_name (fst row),
       fv_field_size = (case fd_field_size (fst row) of None \<Rightarrow> 0 | Some x \<Rightarrow> if x \<noteq> 0 then x else 0),
       fv_field_location = fd_field_location (fst row),
       fv_soil_type = fd_soil_type (fst row),
       fv_current_crop = (case snd row of None \<Rightarrow> None | Some fc \<Rightarrow> fc_crop_name fc),
       fv_variety = (case snd row of None \<Rightarrow> None | Some fc \<Rightarrow> fc_variety fc),
       fv_planting_date =
         (case snd row of
            None \<Rightarrow> None
          | Some fc \<Rightarrow> (case fc_planting_date fc of None \<Rightarrow> None | Some d \<Rightarrow> Some (isoformat d))),
       fv_crop_status = (case snd row of None \<Rightarrow> None | Some fc \<Rightarrow> fc_status fc) \<rparr>"

definition get_farmer_fields_body :: "faults \<Rightarrow> db \<Rightarrow> int \<Rightarrow> exn + field_view list" where
  "get_farmer_fields_body flt s farmer_id =
     (case execute flt 0 (Inr (select_farmer_fields s farmer_id)) of
        Inl e \<Rightarrow> Inl e
      | Inr results \<Rightarrow> Inr (map field_view_of results))"

definition get_farmer_fields :: "faults \<Rightarrow> db \<Rightarrow> int \<Rightarrow> field_view list" where
  "get_farmer_fields flt s farmer_id =
     (case get_farmer_fields_body flt s farmer_id of Inl e \<Rightarrow> [] | Inr v \<Rightarrow> v)"

subsection \<open>\<^verbatim>\<open>get_recent_conversations\<close>\<close>

text \<open>The score \<^verbatim>\<open>0.8\<close> is the rational \<open>4/5\<close>.\<close>

record turn =
  turn_id :: int
  turn_user_input :: "string option"
  turn_ava_response :: "string option"
  turn_timestamp :: int
  turn_message_type :: string
  turn_confidence_score :: rat
  turn_approved_status :: bool

text \<open>\<^verbatim>\<open>... WHERE farmer_id = :farmer_id ORDER BY timestamp DESC LIMIT :limit\<close>.\<close>

definition select_recent :: "db \<Rightarrow> int \<Rightarrow> int \<Rightarrow> exn + message_row list" where
  "select_recent s farmer_id limit =
     sql_limit limit
       (sort_key (\<lambda>m. - m_timestamp m) (filter (\<lambda>m. m_farmer_id m = farmer_id) (t_incoming_messages s)))"

definition turn_of :: "message_row \<Rightarrow> turn" where
  "turn_of row =
     \<lparr> turn_id = m_id row,
       turn_user_input = (if m_role row = ''user'' then m_message_text row else Some []),
       turn_ava_response = (if m_role row = ''assistant'' then m_message_text row else Some []),
       turn_timestamp = m_timestamp row,
       turn_message_type = ''chat'',
       turn_confidence_score = 4 / 5,
       turn_approved_status = False \<rparr>"

definition get_recent_conversations_body :: "faults \<Rightarrow> db \<Rightarrow> int \<Rightarrow> int \<Rightarrow> exn + turn list" where
  "get_recent_conversations_body flt s farmer_id limit =
     (case execute flt 0 (select_recent s farmer_id limit) of
        Inl e \<Rightarrow> Inl e
      | Inr results \<Rightarrow> Inr (map turn_of results))"

definition get_recent_conversations :: "faults \<Rightarrow> db \<Rightarrow> int \<Rightarrow> int \<Rightarrow> turn list" where
  "get_recent_conversations flt s farmer_id limit =
     (case get_recent_conversations_body flt s farmer_id limit of Inl e \<Rightarrow> [] | Inr v \<Rightarrow> v)"

subsection \<open>\<^verbatim>\<open>save_conversation\<close>\<close>

text \<open>
  \<^verbatim>\<open>conversation_data\<close> is a dictionary from keys to strings or \<^verbatim>\<open>None\<close>;
  \<^verbatim>\<open>d.get(k, default)\<close> gives the default only when the key is absent.
\<close>

type_synonym conversation_data = "string \<rightharpoonup> string option"

definition dict_get :: "conversation_data \<Rightarrow> string \<Rightarrow> string option \<Rightarrow> string option" where
  "dict_get d k dflt = (case d k of None \<Rightarrow> dflt | Some v \<Rightarrow> v)"

text \<open>
  The session (\<^verbatim>\<open>autocommit=False\<close>) holds the rows it has inserted and not yet
  committed; other readers see the committed tables of \<open>db\<close> only. An
  \<^verbatim>\<open>INSERT ... RETURNING id\<close> draws the next identifier (the sequence is not rolled back),
  stamps the row with \<^verbatim>\<open>CURRENT_TIMESTAMP\<close> and returns the identifier.
\<close>

definition insert_message ::
  "faults \<Rightarrow> nat \<Rightarrow> db \<times> message_row list \<Rightarrow> int \<Rightarrow> string option \<Rightarrow> string option \<Rightarrow> string
     \<Rightarrow> (exn + int) \<times> db \<times> message_row list" where
  "insert_message flt n st farmer_id phone_number message_text role =
     (case flt n of
        Some e \<Rightarrow> (Inl e, st)
      | None \<Rightarrow>
          (let new_id = msg_seq (fst st) + 1 in
             (Inr new_id,
              (fst st)\<lparr>msg_seq := new_id\<rparr>,
              snd st @ [\<lparr> m_id = new_id, m_farmer_id = farmer_id, m_phone_number = phone_number,
                         m_message_text = message_text, m_role = role,
                         m_timestamp = clock (fst st) \<rparr>])))"

text \<open>\<^verbatim>\<open>session.commit()\<close>: the pending rows become visible, all at once.\<close>

definition commit :: "faults \<Rightarrow> nat \<Rightarrow> db \<times> message_row list \<Rightarrow> (exn + unit) \<times> db \<times> message_row list" where
  "commit flt n st =
     (case flt n of
        Some e \<Rightarrow> (Inl e, st)
      | None \<Rightarrow>
          (Inr (), (fst st)\<lparr>t_incoming_messages := t_incoming_messages (fst st) @ snd st\<rparr>, []))"

text \<open>The body of the \<^verbatim>\<open>with\<close> block. \<^verbatim>\<open>result2.scalar()\<close> reads the identifier that the
  second statement has returned.\<close>

definition save_conversation_body ::
  "faults \<Rightarrow> db \<Rightarrow> int \<Rightarrow> conversation_data \<Rightarrow> (exn + int option) \<times> db \<times> message_row list" where
  "save_conversation_body flt s farmer_id conversation_data =
     (case insert_message flt 0 (s, []) farmer_id
             (dict_get conversation_data ''wa_phone_number'' (Some ''unknown''))
             (dict_get conversation_data ''question'' None) ''user'' of
        (Inl e, st1) \<Rightarrow> (Inl e, st1)
      | (Inr result1, st1) \<Rightarrow>
          (case insert_message flt 1 st1 farmer_id
                  (dict_get conversation_data ''wa_phone_number'' (Some ''unknown''))
                  (dict_get conversation_data ''answer'' None) ''assistant'' of
             (Inl e, st2) \<Rightarrow> (Inl e, st2)
           | (Inr result2, st2) \<Rightarrow>
               (case commit flt 2 st2 of
                  (Inl e, st3) \<Rightarrow> (Inl e, st3)
                | (Inr u, st3) \<Rightarrow> (Inr (Some result2), st3))))"

text \<open>Leaving the \<^verbatim>\<open>with\<close> block closes the session, which drops what is still pending;
  \<^verbatim>\<open>except Exception\<close> logs and returns \<^verbatim>\<open>None\<close>. The result is the returned value and the
  committed store.\<close>

definition save_conversation :: "faults \<Rightarrow> db \<Rightarrow> int \<Rightarrow> conversation_data \<Rightarrow> int option \<times> db" where
  "save_conversation flt s farmer_id conversation_data =
     (case save_conversation_body flt s farmer_id conversation_data of
        (Inl e, st) \<Rightarrow> (None, fst st)
      | (Inr conv_id, st) \<Rightarrow> (conv_id, fst st))"

subsection \<open>\<^verbatim>\<open>get_crop_info\<close>\<close>

record crop_info =
  crop_id :: int
  crop_name :: string
  croatian_name :: string
  category :: string
  planting_season :: string
  harvest_season :: string
  description :: string

text \<open>\<^verbatim>\<open>SELECT DISTINCT crop_type FROM crop_technology
  WHERE LOWER(crop_type) = LOWER(:crop_name) LIMIT 1\<close>; a NULL \<^verbatim>\<open>crop_type\<close> never matches.\<close>

definition select_crop :: "db \<Rightarrow> string \<Rightarrow> string list" where
  "select_crop s name =
     take 1 (remdups (List.map_filter
       (\<lambda>c. case c of None \<Rightarrow> None | Some t \<Rightarrow> if lower t = lower name then Some t else None)
       (t_crop_technology s)))"

definition crop_info_of :: "string \<Rightarrow> crop_info" where
  "crop_info_of result =
     \<lparr> crop_id = 1, crop_name = result, croatian_name = result, category = ''Crop'',
       planting_season = ''Spring'', harvest_season = ''Fall'',
       description = ''Information about '' @ result \<rparr>"

definition get_crop_info_body :: "faults \<Rightarrow> db \<Rightarrow> string \<Rightarrow> exn + crop_info option" where
  "get_crop_info_body flt s name =
     (case execute flt 0 (Inr (select_crop s name)) of
        Inl e \<Rightarrow> Inl e
      | Inr rows \<Rightarrow>
          (case fetchone rows of
             Some result \<Rightarrow> Inr (Some (crop_info_of result))
           | None \<Rightarrow> Inr None))"

definition get_crop_info :: "faults \<Rightarrow> db \<Rightarrow> string \<Rightarrow> crop_info option" where
  "get_crop_info flt s name =
     (case get_crop_info_body flt s name of Inl e \<Rightarrow> None | Inr v \<Rightarrow> v)"

subsection \<open>\<^verbatim>\<open>get_conversations_for_approval\<close>\<close>

record conv =
  conv_id :: int
  conv_farmer_id :: int
  conv_farmer_name :: string
  conv_farmer_phone :: string
  conv_farmer_location :: string
  conv_farmer_type :: string
  conv_farmer_size :: string
  conv_last_message :: string
  conv_timestamp :: int

record approval_queue =
  unapproved :: "conv list"
  approved :: "conv list"

text \<open>\<^verbatim>\<open>incoming_messages m JOIN farmers f ON m.farmer_id = f.id\<close>.\<close>

definition join_farmers :: "db \<Rightarrow> (message_row \<times> farmer_row) list" where
  "join_farmers s =
     concat (map (\<lambda>m. map (\<lambda>f. (m, f)) (filter (\<lambda>f. m_farmer_id m = fr_id f) (t_farmers s)))
       (t_incoming_messages s))"

text \<open>The common table expression \<^verbatim>\<open>latest_messages\<close>:
  \<^verbatim>\<open>SELECT DISTINCT ON (farmer_id) ... WHERE m.role = 'user' ORDER BY farmer_id, m.timestamp DESC\<close>.\<close>

definition latest_messages :: "db \<Rightarrow> (message_row \<times> farmer_row) list" where
  "latest_messages s =
     distinct_on (\<lambda>row. m_farmer_id (fst row))
       (sort_key (\<lambda>row. (m_farmer_id (fst row), - m_timestamp (fst row)))
          (filter (\<lambda>row. m_role (fst row) = ''user'') (join_farmers s)))"

text \<open>\<^verbatim>\<open>SELECT * FROM latest_messages ORDER BY timestamp DESC LIMIT 100\<close>.\<close>

definition select_for_approval :: "db \<Rightarrow> (message_row \<times> farmer_row) list" where
  "select_for_approval s = take 100 (sort_key (\<lambda>row. - m_timestamp (fst row)) (latest_messages s))"

definition conv_of :: "message_row \<times> farmer_row \<Rightarrow> conv" where
  "conv_of row =
     \<lparr> conv_id = m_id (fst row),
       conv_farmer_id = m_farmer_id (fst row),
       conv_farmer_name = display_name (fr_manager_name (snd row)) (fr_manager_last_name (snd row)),
       conv_farmer_phone = or_str (fr_phone (snd row)) [],
       conv_farmer_location = or_str (fr_city (snd row)) [],
       conv_farmer_type = ''Farm'',
       conv_farmer_size = ''0.0'',
       conv_last_message = truncate_message (m_message_text (fst row)),
       conv_timestamp = m_timestamp (fst row) \<rparr>"

definition get_conversations_for_approval_body :: "faults \<Rightarrow> db \<Rightarrow> exn + approval_queue" where
  "get_conversations_for_approval_body flt s =
     (case execute flt 0 (Inr (select_for_approval s)) of
        Inl e \<Rightarrow> Inl e
      | Inr results \<Rightarrow> Inr \<lparr> unapproved = map conv_of results, approved = [] \<rparr>)"

definition get_conversations_for_approval :: "faults \<Rightarrow> db \<Rightarrow> approval_queue" where
  "get_conversations_for_approval flt s =
     (case get_conversations_for_approval_body flt s of
        Inl e \<Rightarrow> \<lparr> unapproved = [], approved = [] \<rparr>
      | Inr v \<Rightarrow> v)"

subsection \<open>\<^verbatim>\<open>get_conversation_details\<close>\<close>

record details =
  det_id :: int
  det_farmer_id :: int
  det_farmer_name :: string
  det_user_input :: "string option"
  det_ava_response :: "string option"
  det_timestamp :: int
  det_approved_status :: bool

definition select_conversation :: "db \<Rightarrow> int \<Rightarrow> (message_row \<times> farmer_row) list" where
  "select_conversation s conversation_id =
     filter (\<lambda>row. m_id (fst row) = conversation_id) (join_farmers s)"

definition details_of :: "message_row \<times> farmer_row \<Rightarrow> details" where
  "details_of result =
     \<lparr> det_id = m_id (fst result),
       det_farmer_id = m_farmer_id (fst result),
       det_farmer_name =
         display_name (fr_manager_name (snd result)) (fr_manager_last_name (snd result)),
       det_user_input =
         (if m_role (fst result) = ''user'' then m_message_text (fst result) else Some []),
       det_ava_response =
         (if m_role (fst result) = ''assistant'' then m_message_text (fst result) else Some []),
       det_timestamp = m_timestamp (fst result),
       det_approved_status = False \<rparr>"

definition get_conversation_details_body :: "faults \<Rightarrow> db \<Rightarrow> int \<Rightarrow> exn + details option" where
  "get_conversation_details_body flt s conversation_id =
     (case execute flt 0 (Inr (select_conversation s conversation_id)) of
        Inl e \<Rightarrow> Inl e
      | Inr rows \<Rightarrow>
          (case fetchone rows of
             Some result \<Rightarrow> Inr (Some (details_of result))
           | None \<Rightarrow> Inr None))"

definition get_conversation_details :: "faults \<Rightarrow> db \<Rightarrow> int \<Rightarrow> details option" where
  "get_conversation_details flt s conversation_id =
     (case get_conversation_details_body flt s conversation_id of Inl e \<Rightarrow> None | Inr v \<Rightarrow> v)"

subsection \<open>\<^verbatim>\<open>health_check\<close> and \<^verbatim>\<open>test_windows_postgresql\<close>\<close>

definition health_check_body :: "faults \<Rightarrow> db \<Rightarrow> exn + bool" where
  "health_check_body flt s =
     (case execute flt 0 (Inr (length (t_farmers s))) of
        Inl e \<Rightarrow> Inl e
      | Inr cnt \<Rightarrow> Inr True)"

definition health_check :: "faults \<Rightarrow> db \<Rightarrow> bool" where
  "health_check flt s = (case health_check_body flt s of Inl e \<Rightarrow> False | Inr v \<Rightarrow> v)"

text \<open>The loop \<^verbatim>\<open>for table in tables\<close>, one count per round trip, from round trip \<open>n\<close> on.\<close>

fun count_tables :: "faults \<Rightarrow> nat \<Rightarrow> nat list \<Rightarrow> exn + unit" where
  "count_tables flt n [] = Inr ()"
| "count_tables flt n (c # cs) =
     (case execute flt n (Inr c) of
        Inl e \<Rightarrow> Inl e
      | Inr cnt \<Rightarrow> count_tables flt (Suc n) cs)"

text \<open>What is printed is left out.\<close>

definition test_windows_postgresql_body :: "faults \<Rightarrow> db \<Rightarrow> exn + bool" where
  "test_windows_postgresql_body flt s =
     (case execute flt 0 (Inr (length (t_farmers s))) of
        Inl e \<Rightarrow> Inl e
      | Inr farmer_count \<Rightarrow>
          (case execute flt 1 (Inr (take 5 (t_farmers s))) of
             Inl e \<Rightarrow> Inl e
           | Inr sample \<Rightarrow>
               (case count_tables flt 2
                       [length (t_fields s), length (t_field_crops s),
                        length (t_incoming_messages s), crop_protection_croatia_rows s] of
                  Inl e \<Rightarrow> Inl e
                | Inr u \<Rightarrow> Inr True)))"

definition test_windows_postgresql :: "faults \<Rightarrow> db \<Rightarrow> bool" where
  "test_windows_postgresql flt s =
     (case test_windows_postgresql_body flt s of Inl e \<Rightarrow> False | Inr v \<Rightarrow> v)"

section \<open>Example stores\<close>

text \<open>The round trip of the specification: one farmer, no messages yet.\<close>

definition green_acres :: db where
  "green_acres =
     \<lparr> t_farmers =
         [\<lparr> fr_id = 1, fr_farm_name = Some ''Green Acres'', fr_manager_name = Some ''Jane'',
            fr_manager_last_name = Some ''Doe'', fr_email = None, fr_phone = None,
            fr_city = Some ''Springfield'', fr_wa_phone_number = Some ''555-0100'' \<rparr>],
       t_fields = [], t_field_crops = [], t_incoming_messages = [], t_crop_technology = [],
       crop_protection_croatia_rows = 0, msg_seq = 10, clock = 1000 \<rparr>"

text \<open>A conversation whose phone is under the key \<^verbatim>\<open>phone\<close>.\<close>

definition asked :: conversation_data where
  "asked = [''question'' \<mapsto> Some ''When to sow?'', ''answer'' \<mapsto> Some ''In April.'',
            ''phone'' \<mapsto> Some ''555-0100'']"

text \<open>The same store after one saved conversation.\<close>

definition two_turns :: db where
  "two_turns =
     green_acres\<lparr> t_incoming_messages :=
       [\<lparr> m_id = 11, m_farmer_id = 1, m_phone_number = Some ''unknown'',
          m_message_text = Some ''When to sow?'', m_role = ''user'', m_timestamp = 1000 \<rparr>,
        \<lparr> m_id = 12, m_farmer_id = 1, m_phone_number = Some ''unknown'',
          m_message_text = Some ''In April.'', m_role = ''assistant'', m_timestamp = 1000 \<rparr>],
       msg_seq := 12 \<rparr>"

text \<open>Farmers with missing names and phones.\<close>

definition anonymous :: farmer_row where
  "anonymous =
     \<lparr> fr_id = 7, fr_farm_name = Some ''Hilltop'', fr_manager_name = Some ''Ann'',
       fr_manager_last_name = None, fr_email = None, fr_phone = None, fr_city = None,
       fr_wa_phone_number = None \<rparr>"

definition padded :: farmer_row where
  "padded =
     \<lparr> fr_id = 8, fr_farm_name = Some ''Meadow'', fr_manager_name = Some '' Bo'',
       fr_manager_last_name = Some ''Li '', fr_email = None, fr_phone = Some ''555-0101'',
       fr_city = None, fr_wa_phone_number = Some ''555-0102'' \<rparr>"

definition directory :: db where
  "directory = green_acres\<lparr> t_farmers := t_farmers green_acres @ [anonymous, padded] \<rparr>"

text \<open>A farmer with two fields: one never planted and of unknown size, one with an active and
  a harvested planting.\<close>

definition fallow :: field_row where
  "fallow =
     \<lparr> fd_field_id = 20, fd_farmer_id = 1, fd_field_name = Some ''North'', fd_field_size = None,
       fd_field_location = None, fd_soil_type = Some ''clay'' \<rparr>"

definition planted :: field_row where
  "planted =
     \<lparr> fd_field_id = 21, fd_farmer_id = 1, fd_field_name = Some ''South'',
       fd_field_size = Some (5 / 2), fd_field_location = None, fd_soil_type = None \<rparr>"

definition holdings :: db where
  "holdings =
     green_acres\<lparr> t_fields := [planted, fallow],
       t_field_crops :=
         [\<lparr> fc_field_id = 21, fc_crop_name = Some ''maize'', fc_variety = Some ''P9911'',
            fc_planting_date = Some \<lparr> year = 2024, month = 4, day = 9 \<rparr>,
            fc_status = Some ''active'' \<rparr>,
          \<lparr> fc_field_id = 20, fc_crop_name = Some ''wheat'', fc_variety = None,
            fc_planting_date = None, fc_status = Some ''harvested'' \<rparr>] \<rparr>"

text \<open>Two farmers with user messages; the latest message of farmer 1 has 101 characters.\<close>

definition inbox :: db where
  "inbox =
     green_acres\<lparr> t_farmers := t_farmers green_acres @ [padded],
       t_incoming_messages :=
         [\<lparr> m_id = 11, m_farmer_id = 1, m_phone_number = Some ''unknown'',
            m_message_text = Some ''When to sow?'', m_role = ''user'', m_timestamp = 1000 \<rparr>,
          \<lparr> m_id = 12, m_farmer_id = 1, m_phone_number = Some ''unknown'',
            m_message_text = Some ''In April.'', m_role = ''assistant'', m_timestamp = 1000 \<rparr>,
          \<lparr> m_id = 13, m_farmer_id = 1, m_phone_number = Some ''unknown'',
            m_message_text = Some (replicate 101 CHR ''x''), m_role = ''user'',
            m_timestamp = 1005 \<rparr>,
          \<lparr> m_id = 14, m_farmer_id = 8, m_phone_number = Some ''555-0101'',
            m_message_text = Some ''Rain?'', m_role = ''user'', m_timestamp = 1003 \<rparr>],
       msg_seq := 14 \<rparr>"

text \<open>101 farmers, farmer \<open>i\<close> with one user message sent at \<open>1000 - i\<close>.\<close>

definition crowd :: db where
  "crowd =
     \<lparr> t_farmers =
         map (\<lambda>i. \<lparr> fr_id = int i, fr_farm_name = None, fr_manager_name = None,
                     fr_manager_last_name = None, fr_email = None, fr_phone = None,
                     fr_city = None, fr_wa_phone_number = None \<rparr>) [0..<101],
       t_fields = [], t_field_crops = [],
       t_incoming_messages =
         map (\<lambda>i. \<lparr> m_id = int i, m_farmer_id = int i, m_phone_number = None,
                     m_message_text = None, m_role = ''user'',
                     m_timestamp = 1000 - int i \<rparr>) [0..<101],
       t_crop_technology = [], crop_protection_croatia_rows = 0, msg_seq = 100, clock = 1000 \<rparr>"

text \<open>Three farmers, one without a farm name.\<close>

definition orchard :: db where
  "orchard =
     green_acres\<lparr> t_farmers :=
       [\<lparr> fr_id = 1, fr_farm_name = Some ''Apple'', fr_manager_name = None,
          fr_manager_last_name = None, fr_email = None, fr_phone = None, fr_city = None,
          fr_wa_phone_number = None \<rparr>,
        \<lparr> fr_id = 2, fr_farm_name = None, fr_manager_name = None,
          fr_manager_last_name = None, fr_email = None, fr_phone = None, fr_city = None,
          fr_wa_phone_number = None \<rparr>,
        \<lparr> fr_id = 3, fr_farm_name = Some ''Zebra'', fr_manager_name = None,
          fr_manager_last_name = None, fr_email = None, fr_phone = None, fr_city = None,
          fr_wa_phone_number = None \<rparr>] \<rparr>"

section \<open>Properties\<close>

subsection \<open>Rows that reach the caller\<close>

lemma fetchone_filter:
  "fetchone (filter P xs) = Some r \<Longrightarrow> r \<in> set xs \<and> P r"
  by (cases "filter P xs") (auto simp: fetchone_def dest: filter_eq_ConsD)

lemma sql_limit_rows: "sql_limit k xs = Inr ys \<Longrightarrow> set ys \<subseteq> set xs \<and> length ys \<le> nat k"
  by (auto simp: sql_limit_def split: if_splits dest: in_set_takeD)

subsection \<open>\<^verbatim>\<open>get_farmer_info\<close>\<close>

text \<open>
  Claim C4. When the store answers and some row of \<^verbatim>\<open>farmers\<close> has the requested id,
  \<^verbatim>\<open>get_farmer_info\<close> returns a record with that id, with farm name, manager names, city and
  \<^verbatim>\<open>wa_phone_number\<close> of a stored row with that id, and with the placeholders \<open>0\<close> and
  \<^verbatim>\<open>"Farm"\<close>. When no row has the id, it returns \<^verbatim>\<open>None\<close>, whatever the store does.
\<close>

theorem get_farmer_info_by_id:
  "(flt 0 = None \<longrightarrow> (\<exists>r\<in>set (t_farmers s). fr_id r = farmer_id) \<longrightarrow>
      (\<exists>r\<in>set (t_farmers s). fr_id r = farmer_id \<and>
         get_farmer_info flt s farmer_id =
           Some \<lparr> info_id = farmer_id, info_farm_name = fr_farm_name r,
                  info_manager_name = fr_manager_name r,
                  info_manager_last_name = fr_manager_last_name r,
                  info_total_hectares = 0, info_farmer_type = ''Farm'',
                  info_city = fr_city r, info_wa_phone_number = fr_wa_phone_number r \<rparr>))
   \<and> ((\<forall>r\<in>set (t_farmers s). fr_id r \<noteq> farmer_id) \<longrightarrow> get_farmer_info flt s farmer_id = None)"
proof (intro conjI impI)
  assume ok: "flt 0 = None" and ex: "\<exists>r\<in>set (t_farmers s). fr_id r = farmer_id"
  from ex have "select_farmer s farmer_id \<noteq> []"
    by (auto simp: select_farmer_def filter_empty_conv)
  then obtain r where r: "fetchone (select_farmer s farmer_id) = Some r"
    by (cases "select_farmer s farmer_id") (auto simp: fetchone_def)
  then have mem: "r \<in> set (t_farmers s) \<and> fr_id r = farmer_id"
    unfolding select_farmer_def by (rule fetchone_filter)
  have "get_farmer_info flt s farmer_id = Some (farmer_info_of r)"
    using ok r by (simp add: get_farmer_info_def get_farmer_info_body_def execute_def)
  with mem show "\<exists>r\<in>set (t_farmers s). fr_id r = farmer_id \<and>
         get_farmer_info flt s farmer_id =
           Some \<lparr> info_id = farmer_id, info_farm_name = fr_farm_name r,
                  info_manager_name = fr_manager_name r,
                  info_manager_last_name = fr_manager_last_name r,
                  info_total_hectares = 0, info_farmer_type = ''Farm'',
                  info_city = fr_city r, info_wa_phone_number = fr_wa_phone_number r \<rparr>"
    by (auto simp: farmer_info_of_def)
next
  assume "\<forall>r\<in>set (t_farmers s). fr_id r \<noteq> farmer_id"
  then have "select_farmer s farmer_id = []"
    by (auto simp: select_farmer_def filter_empty_conv)
  then show "get_farmer_info flt s farmer_id = None"
    by (simp add: get_farmer_info_def get_farmer_info_body_def execute_def fetchone_def
        split: option.splits)
qed

theorem get_farmer_info_by_id_witness:
  "no_faults 0 = None
   \<and> get_farmer_info no_faults green_acres 1 =
       Some \<lparr> info_id = 1, info_farm_name = Some ''Green Acres'', info_manager_name = Some ''Jane'',
              info_manager_last_name = Some ''Doe'', info_total_hectares = 0,
              info_farmer_type = ''Farm'', info_city = Some ''Springfield'',
              info_wa_phone_number = Some ''555-0100'' \<rparr>
   \<and> get_farmer_info no_faults green_acres 2 = None"
  using get_farmer_info_by_id [of no_faults green_acres 1]
    get_farmer_info_by_id [of no_faults green_acres 2]
  by (simp add: no_faults_def green_acres_def)

subsection \<open>Failures of the store\<close>

lemma count_tables_fault:
  "flt k = Some e \<Longrightarrow> n \<le> k \<Longrightarrow> k < n + length cs \<Longrightarrow> \<exists>e'. count_tables flt n cs = Inl e'"
proof (induction cs arbitrary: n)
  case Nil
  then show ?case by simp
next
  case (Cons c cs)
  show ?case
  proof (cases "flt n")
    case None
    with Cons.prems have "n \<noteq> k" by auto
    with Cons.prems have "Suc n \<le> k" "k < Suc n + length cs" by auto
    from Cons.IH [of "Suc n", OF Cons.prems(1) this] None show ?thesis
      by (simp add: execute_def)
  next
    case (Some a)
    then show ?thesis by (simp add: execute_def)
  qed
qed

text \<open>
  Claim C3. When the store makes round trip \<open>n\<close> of a call fail, by a connectivity or a
  statement failure, the operation returns its empty value and raises nothing: \<^verbatim>\<open>None\<close> for
  the single-record operations, the empty list for the list operations (two empty lists for the
  approval queue), \<^verbatim>\<open>False\<close> for the two checks. \<^verbatim>\<open>save_conversation\<close> makes three round
  trips, \<^verbatim>\<open>test_windows_postgresql\<close> six, every other operation one.
\<close>

theorem store_failure_gives_sentinel:
  assumes "flt n = Some e"
  shows "(n = 0 \<longrightarrow>
            get_farmer_info flt s farmer_id = None
          \<and> get_all_farmers flt s limit = []
          \<and> get_farmer_fields flt s farmer_id = []
          \<and> get_recent_conversations flt s farmer_id limit = []
          \<and> get_crop_info flt s name = None
          \<and> get_conversations_for_approval flt s = \<lparr> unapproved = [], approved = [] \<rparr>
          \<and> get_conversation_details flt s conversation_id = None
          \<and> health_check flt s = False)
       \<and> (n < 3 \<longrightarrow> fst (save_conversation flt s farmer_id d) = None)
       \<and> (n < 6 \<longrightarrow> test_windows_postgresql flt s = False)"
proof (intro conjI impI)
  assume n: "n < 3"
  then consider "n = 0" | "n = 1" | "n = 2" by linarith
  then show "fst (save_conversation flt s farmer_id d) = None"
    using assms
    by cases
      (auto simp: save_conversation_def save_conversation_body_def insert_message_def
        commit_def Let_def split: option.splits)
next
  assume n: "n < 6"
  show "test_windows_postgresql flt s = False"
  proof (cases "n < 2")
    case True
    then consider "n = 0" | "n = 1" by linarith
    then show ?thesis
      using assms
      by cases
        (auto simp: test_windows_postgresql_def test_windows_postgresql_body_def execute_def
          split: option.splits sum.splits)
  next
    case False
    with n have "2 \<le> n" "n < 2 + length [length (t_fields s), length (t_field_crops s),
        length (t_incoming_messages s), crop_protection_croatia_rows s]"
      by auto
    from count_tables_fault [of flt n e 2, OF assms this] show ?thesis
      by (auto simp: test_windows_postgresql_def test_windows_postgresql_body_def
          split: option.splits sum.splits)
  qed
qed (use assms in \<open>simp_all add: execute_def get_farmer_info_def get_farmer_info_body_def
      get_all_farmers_def get_all_farmers_body_def get_farmer_fields_def
      get_farmer_fields_body_def get_recent_conversations_def get_recent_conversations_body_def
      get_crop_info_def get_crop_info_body_def get_conversations_for_approval_def
      get_conversations_for_approval_body_def get_conversation_details_def
      get_conversation_details_body_def health_check_def health_check_body_def\<close>)

theorem store_failure_gives_sentinel_witness:
  "unreachable 0 = Some ConnectivityFailure
   \<and> health_check unreachable green_acres = False
   \<and> get_farmer_info unreachable green_acres 1 = None
   \<and> get_all_farmers unreachable green_acres 100 = []
   \<and> fst (save_conversation unreachable green_acres 1 asked) = None
   \<and> test_windows_postgresql unreachable green_acres = False
   \<and> fails_at 1 1 = Some StatementFailure
   \<and> fst (save_conversation (fails_at 1) green_acres 1 asked) = None"
  using store_failure_gives_sentinel [of unreachable 0 ConnectivityFailure green_acres 1 100 _ _ asked]
    store_failure_gives_sentinel [of "fails_at 1" 1 StatementFailure green_acres 1 _ _ _ asked]
  by (simp add: unreachable_def fails_at_def)

subsection \<open>\<^verbatim>\<open>save_conversation\<close>\<close>

lemma insert_message_invisible:
  "t_incoming_messages (fst (snd (insert_message flt n st farmer_id phone txt role))) =
     t_incoming_messages (fst st)"
  by (simp add: insert_message_def Let_def split: option.splits)

text \<open>
  Claim C1. \<^verbatim>\<open>save_conversation\<close> makes three round trips: two inserts and the commit.
  When none of them fails, the committed table gains exactly two rows, a \<^verbatim>\<open>user\<close> row with
  the question and an \<^verbatim>\<open>assistant\<close> row with the answer, and the call returns the
  identifier of the assistant row. When one of them fails, the committed table is as before
  and the call returns \<^verbatim>\<open>None\<close>. After each of the two inserts the committed table is still
  as before, so the two rows become visible together, at the commit. No other table changes.
\<close>

theorem save_conversation_atomic:
  assumes "save_conversation flt s farmer_id d = (r, s')"
  shows "(flt 0 = None \<and> flt 1 = None \<and> flt 2 = None \<longrightarrow>
            r = Some (msg_seq s + 2)
          \<and> t_incoming_messages s' = t_incoming_messages s @
              [\<lparr> m_id = msg_seq s + 1, m_farmer_id = farmer_id,
                 m_phone_number = dict_get d ''wa_phone_number'' (Some ''unknown''),
                 m_message_text = dict_get d ''question'' None, m_role = ''user'',
                 m_timestamp = clock s \<rparr>,
               \<lparr> m_id = msg_seq s + 2, m_farmer_id = farmer_id,
                 m_phone_number = dict_get d ''wa_phone_number'' (Some ''unknown''),
                 m_message_text = dict_get d ''answer'' None, m_role = ''assistant'',
                 m_timestamp = clock s \<rparr>])
       \<and> (flt 0 \<noteq> None \<or> flt 1 \<noteq> None \<or> flt 2 \<noteq> None \<longrightarrow>
            r = None \<and> t_incoming_messages s' = t_incoming_messages s)
       \<and> t_incoming_messages
            (fst (snd (insert_message flt 0 (s, []) farmer_id
               (dict_get d ''wa_phone_number'' (Some ''unknown''))
               (dict_get d ''question'' None) ''user''))) = t_incoming_messages s
       \<and> t_incoming_messages
            (fst (snd (insert_message flt 1
               (snd (insert_message flt 0 (s, []) farmer_id
                  (dict_get d ''wa_phone_number'' (Some ''unknown''))
                  (dict_get d ''question'' None) ''user'')) farmer_id
               (dict_get d ''wa_phone_number'' (Some ''unknown''))
               (dict_get d ''answer'' None) ''assistant''))) = t_incoming_messages s
       \<and> t_farmers s' = t_farmers s \<and> t_fields s' = t_fields s
       \<and> t_field_crops s' = t_field_crops s \<and> t_crop_technology s' = t_crop_technology s"
proof -
  have inv: "t_incoming_messages
            (fst (snd (insert_message flt 1
               (snd (insert_message flt 0 (s, []) farmer_id
                  (dict_get d ''wa_phone_number'' (Some ''unknown''))
                  (dict_get d ''question'' None) ''user'')) farmer_id
               (dict_get d ''wa_phone_number'' (Some ''unknown''))
               (dict_get d ''answer'' None) ''assistant''))) = t_incoming_messages s"
    by (simp add: insert_message_invisible)
  show ?thesis
  proof (cases "flt 0")
    case f0: (Some e0)
    with assms inv show ?thesis
      by (auto simp: save_conversation_def save_conversation_body_def insert_message_def)
  next
    case f0: None
    show ?thesis
    proof (cases "flt 1")
      case f1: (Some e1)
      with f0 assms inv show ?thesis
        by (auto simp: save_conversation_def save_conversation_body_def insert_message_def
            Let_def)
    next
      case f1: None
      show ?thesis
      proof (cases "flt 2")
        case f2: (Some e2)
        with f0 f1 assms inv show ?thesis
          by (auto simp: save_conversation_def save_conversation_body_def insert_message_def
              commit_def Let_def)
      next
        case f2: None
        with f0 f1 assms inv show ?thesis
          by (auto simp: save_conversation_def save_conversation_body_def insert_message_def
              commit_def Let_def)
      qed
    qed
  qed
qed

theorem save_conversation_atomic_witness:
  "fst (save_conversation no_faults green_acres 1 asked) = Some 12
   \<and> t_incoming_messages (snd (save_conversation no_faults green_acres 1 asked)) =
         [\<lparr> m_id = 11, m_farmer_id = 1, m_phone_number = Some ''unknown'',
            m_message_text = Some ''When to sow?'', m_role = ''user'', m_timestamp = 1000 \<rparr>,
          \<lparr> m_id = 12, m_farmer_id = 1, m_phone_number = Some ''unknown'',
            m_message_text = Some ''In April.'', m_role = ''assistant'', m_timestamp = 1000 \<rparr>]
   \<and> fails_at 2 2 = Some StatementFailure
   \<and> fst (save_conversation (fails_at 2) green_acres 1 asked) = None
   \<and> t_incoming_messages (snd (save_conversation (fails_at 2) green_acres 1 asked)) = []"
  using save_conversation_atomic [OF surjective_pairing, of no_faults green_acres 1 asked]
    save_conversation_atomic [OF surjective_pairing, of "fails_at 2" green_acres 1 asked]
  by (simp add: no_faults_def fails_at_def green_acres_def asked_def dict_get_def)

text \<open>
  Claim C10. When \<^verbatim>\<open>save_conversation\<close> succeeds, both new rows carry the same phone
  number: the value under the key \<^verbatim>\<open>wa_phone_number\<close> of the input dictionary when the key
  is there, and \<^verbatim>\<open>"unknown"\<close> when it is not, whatever else the dictionary holds (a key
  \<^verbatim>\<open>phone\<close>, say).
\<close>

theorem save_conversation_phone_key:
  assumes "save_conversation flt s farmer_id d = (Some i, s')"
  shows "\<exists>u a. t_incoming_messages s' = t_incoming_messages s @ [u, a]
           \<and> m_role u = ''user'' \<and> m_role a = ''assistant''
           \<and> m_phone_number u = m_phone_number a
           \<and> (\<forall>v. d ''wa_phone_number'' = Some v \<longrightarrow> m_phone_number u = v)
           \<and> (d ''wa_phone_number'' = None \<longrightarrow> m_phone_number u = Some ''unknown'')"
  using assms
  by (auto simp: save_conversation_def save_conversation_body_def insert_message_def
      commit_def Let_def dict_get_def split: option.splits)

theorem save_conversation_phone_key_witness:
  "asked ''phone'' = Some (Some ''555-0100'')
   \<and> asked ''wa_phone_number'' = None
   \<and> map m_phone_number (t_incoming_messages (snd (save_conversation no_faults green_acres 1 asked)))
       = [Some ''unknown'', Some ''unknown'']"
proof -
  have run: "save_conversation no_faults green_acres 1 asked =
      (Some 12, snd (save_conversation no_faults green_acres 1 asked))"
    by (simp add: save_conversation_def save_conversation_body_def insert_message_def
        commit_def Let_def no_faults_def green_acres_def)
  have absent: "asked ''wa_phone_number'' = None" and other: "asked ''phone'' = Some (Some ''555-0100'')"
    by (simp_all add: asked_def)
  from save_conversation_phone_key [OF run] absent
  have "map m_phone_number (t_incoming_messages (snd (save_conversation no_faults green_acres 1 asked)))
       = [Some ''unknown'', Some ''unknown'']"
    by (auto simp: green_acres_def)
  with absent other show ?thesis by simp
qed

subsection \<open>\<^verbatim>\<open>get_all_farmers\<close>: name and phone\<close>

lemma get_all_farmers_rows:
  "\<exists>rows. get_all_farmers flt s limit = map farmer_summary_of rows
      \<and> set rows \<subseteq> set (t_farmers s) \<and> length rows \<le> nat limit
      \<and> sorted (map (\<lambda>r. asc_key (fr_farm_name r)) rows)"
proof (cases "execute flt 0 (select_all_farmers s limit)")
  case (Inl e)
  then have "get_all_farmers flt s limit = map farmer_summary_of []"
    by (simp add: get_all_farmers_def get_all_farmers_body_def)
  then show ?thesis by force
next
  case (Inr rows)
  then have lim: "sql_limit limit (sort_key (\<lambda>r. asc_key (fr_farm_name r)) (t_farmers s)) = Inr rows"
    by (auto simp: execute_def select_all_farmers_def split: option.splits)
  then have rows: "rows = take (nat limit) (sort_key (\<lambda>r. asc_key (fr_farm_name r)) (t_farmers s))"
    by (auto simp: sql_limit_def split: if_splits)
  have "sorted (map (\<lambda>r. asc_key (fr_farm_name r)) rows)"
    unfolding rows by (simp add: take_map [symmetric] sorted_wrt_take)
  moreover from sql_limit_rows [OF lim] have "set rows \<subseteq> set (t_farmers s)" "length rows \<le> nat limit"
    by auto
  moreover from Inr have "get_all_farmers flt s limit = map farmer_summary_of rows"
    by (simp add: get_all_farmers_def get_all_farmers_body_def)
  ultimately show ?thesis by blast
qed

text \<open>\<^verbatim>\<open>strip\<close> removes white space at both ends and nothing else.\<close>

lemma strip_trims:
  "\<exists>a b. s = a @ strip s @ b \<and> (\<forall>c\<in>set a. isspace c) \<and> (\<forall>c\<in>set b. isspace c)
     \<and> (strip s \<noteq> [] \<longrightarrow> \<not> isspace (hd (strip s)) \<and> \<not> isspace (last (strip s)))"
proof -
  define a where "a = takeWhile isspace s"
  define m where "m = dropWhile isspace s"
  define b where "b = rev (takeWhile isspace (rev m))"
  have s: "s = a @ m" by (simp add: a_def m_def)
  have "rev m = takeWhile isspace (rev m) @ dropWhile isspace (rev m)" by simp
  then have "m = rev (dropWhile isspace (rev m)) @ rev (takeWhile isspace (rev m))"
    by (metis rev_append rev_rev_ident)
  then have m: "m = strip s @ b" by (simp add: strip_def m_def b_def)
  have sa: "\<forall>c\<in>set a. isspace c" unfolding a_def by (auto dest: set_takeWhileD)
  have sb: "\<forall>c\<in>set b. isspace c" unfolding b_def by (auto dest: set_takeWhileD)
  have ends: "\<not> isspace (hd (strip s)) \<and> \<not> isspace (last (strip s))" if ne: "strip s \<noteq> []"
  proof
    from ne have d: "dropWhile isspace (rev m) \<noteq> []" by (simp add: strip_def m_def)
    then have "\<not> isspace (hd (dropWhile isspace (rev m)))" by (rule hd_dropWhile)
    with d show "\<not> isspace (last (strip s))" by (simp add: strip_def m_def last_rev)
    from ne m have mne: "m \<noteq> []" by auto
    then have "\<not> isspace (hd m)" unfolding m_def by (rule hd_dropWhile)
    with m ne show "\<not> isspace (hd (strip s))" by (metis hd_append2)
  qed
  from s m sa sb ends show ?thesis by metis
qed

text \<open>
  Claim C9. Every summary returned by \<^verbatim>\<open>get_all_farmers\<close> comes from a row of
  \<^verbatim>\<open>farmers\<close>. Its name is the manager's first and last name joined by a space and
  stripped of surrounding white space when both are there (neither NULL nor empty), and
  \<^verbatim>\<open>"Unknown"\<close> when one is missing. Its phone is \<^verbatim>\<open>phone\<close> when there, else
  \<^verbatim>\<open>wa_phone_number\<close> when there, else the empty string.
\<close>

theorem farmer_summary_name_and_phone:
  assumes "e \<in> set (get_all_farmers flt s limit)"
  shows "\<exists>row\<in>set (t_farmers s).
           sum_id e = fr_id row
         \<and> (\<forall>a b. fr_manager_name row = Some a \<and> fr_manager_last_name row = Some b
                \<and> a \<noteq> [] \<and> b \<noteq> [] \<longrightarrow> sum_name e = strip (a @ '' '' @ b))
         \<and> (\<not> truthy (fr_manager_name row) \<or> \<not> truthy (fr_manager_last_name row)
              \<longrightarrow> sum_name e = ''Unknown'')
         \<and> (truthy (fr_phone row) \<longrightarrow> Some (sum_phone e) = fr_phone row)
         \<and> (\<not> truthy (fr_phone row) \<and> truthy (fr_wa_phone_number row)
              \<longrightarrow> Some (sum_phone e) = fr_wa_phone_number row)
         \<and> (\<not> truthy (fr_phone row) \<and> \<not> truthy (fr_wa_phone_number row)
              \<longrightarrow> sum_phone e = [])"
proof -
  from get_all_farmers_rows [of flt s limit]
  obtain rows where rows: "get_all_farmers flt s limit = map farmer_summary_of rows"
      "set rows \<subseteq> set (t_farmers s)"
    by blast
  with assms obtain row where row: "row \<in> set (t_farmers s)" and e: "e = farmer_summary_of row"
    by auto
  have "sum_id e = fr_id row" by (simp add: e farmer_summary_of_def)
  moreover have "\<forall>a b. fr_manager_name row = Some a \<and> fr_manager_last_name row = Some b
                \<and> a \<noteq> [] \<and> b \<noteq> [] \<longrightarrow> sum_name e = strip (a @ '' '' @ b)"
    by (simp add: e farmer_summary_of_def display_name_def)
  moreover have "\<not> truthy (fr_manager_name row) \<or> \<not> truthy (fr_manager_last_name row)
              \<longrightarrow> sum_name e = ''Unknown''"
    by (auto simp: e farmer_summary_of_def display_name_def truthy_def split: option.splits)
  moreover have "truthy (fr_phone row) \<longrightarrow> Some (sum_phone e) = fr_phone row"
    by (auto simp: e farmer_summary_of_def py_or_def or_str_def truthy_def split: option.splits)
  moreover have "\<not> truthy (fr_phone row) \<and> truthy (fr_wa_phone_number row)
              \<longrightarrow> Some (sum_phone e) = fr_wa_phone_number row"
    by (auto simp: e farmer_summary_of_def py_or_def or_str_def truthy_def split: option.splits)
  moreover have "\<not> truthy (fr_phone row) \<and> \<not> truthy (fr_wa_phone_number row)
              \<longrightarrow> sum_phone e = []"
    by (auto simp: e farmer_summary_of_def py_or_def or_str_def truthy_def split: option.splits)
  ultimately show ?thesis using row by blast
qed

theorem farmer_summary_name_and_phone_witness:
  "map sum_id (get_all_farmers no_faults directory 100) = [1, 7, 8]
   \<and> map sum_name (get_all_farmers no_faults directory 100) = [''Jane Doe'', ''Unknown'', ''Bo Li'']
   \<and> map sum_phone (get_all_farmers no_faults directory 100) = [''555-0100'', [], ''555-0101'']"
proof -
  have run: "get_all_farmers no_faults directory 100 =
      map farmer_summary_of (t_farmers directory)"
    by (simp add: get_all_farmers_def get_all_farmers_body_def execute_def no_faults_def
        select_all_farmers_def sql_limit_def directory_def green_acres_def anonymous_def
        padded_def asc_key_def)
  have mem: "farmer_summary_of padded \<in> set (get_all_farmers no_faults directory 100)"
    unfolding run by (simp add: directory_def)
  have ids: "map sum_id (get_all_farmers no_faults directory 100) = [1, 7, 8]"
    unfolding run
    by (simp add: directory_def green_acres_def anonymous_def padded_def farmer_summary_of_def)
  have names: "map sum_name (get_all_farmers no_faults directory 100) =
      [''Jane Doe'', ''Unknown'', sum_name (farmer_summary_of padded)]"
    unfolding run
    by (simp add: directory_def green_acres_def anonymous_def farmer_summary_of_def
        display_name_def strip_def isspace_def)
  have phones: "map sum_phone (get_all_farmers no_faults directory 100) =
      [''555-0100'', [], sum_phone (farmer_summary_of padded)]"
    unfolding run
    by (simp add: directory_def green_acres_def anonymous_def farmer_summary_of_def
        py_or_def or_str_def truthy_def)
  from farmer_summary_name_and_phone [OF mem]
  have "sum_name (farmer_summary_of padded) = ''Bo Li''
      \<and> sum_phone (farmer_summary_of padded) = ''555-0101''"
    by (simp add: directory_def green_acres_def anonymous_def padded_def
        farmer_summary_of_def truthy_def strip_def isspace_def)
  with ids names phones show ?thesis by simp
qed

subsection \<open>The two slots of a message\<close>

lemma get_recent_conversations_rows:
  assumes "t \<in> set (get_recent_conversations flt s farmer_id limit)"
  shows "\<exists>m\<in>set (t_incoming_messages s). m_farmer_id m = farmer_id \<and> t = turn_of m"
proof (cases "execute flt 0 (select_recent s farmer_id limit)")
  case (Inl e)
  with assms show ?thesis
    by (simp add: get_recent_conversations_def get_recent_conversations_body_def)
next
  case (Inr rows)
  then have "sql_limit limit (sort_key (\<lambda>m. - m_timestamp m)
      (filter (\<lambda>m. m_farmer_id m = farmer_id) (t_incoming_messages s))) = Inr rows"
    by (auto simp: execute_def select_recent_def split: option.splits)
  from sql_limit_rows [OF this]
  have "set rows \<subseteq> {m \<in> set (t_incoming_messages s). m_farmer_id m = farmer_id}"
    by auto
  moreover from Inr assms have "t \<in> turn_of ` set rows"
    by (simp add: get_recent_conversations_def get_recent_conversations_body_def)
  ultimately show ?thesis by auto
qed

lemma join_farmers_rows:
  "row \<in> set (join_farmers s) \<longleftrightarrow>
     fst row \<in> set (t_incoming_messages s) \<and> snd row \<in> set (t_farmers s)
       \<and> m_farmer_id (fst row) = fr_id (snd row)"
  by (cases row) (auto simp: join_farmers_def)

lemma get_conversation_details_row:
  assumes "get_conversation_details flt s conversation_id = Some d"
  shows "\<exists>row\<in>set (join_farmers s). m_id (fst row) = conversation_id \<and> d = details_of row"
proof (cases "execute flt 0 (Inr (select_conversation s conversation_id) :: exn + _)")
  case (Inl e)
  with assms show ?thesis
    by (simp add: get_conversation_details_def get_conversation_details_body_def)
next
  case (Inr rows)
  then have rows: "rows = filter (\<lambda>row. m_id (fst row) = conversation_id) (join_farmers s)"
    by (auto simp: execute_def select_conversation_def split: option.splits)
  from Inr assms obtain row where "fetchone rows = Some row" "d = details_of row"
    by (auto simp: get_conversation_details_def get_conversation_details_body_def
        split: option.splits)
  with fetchone_filter [of "\<lambda>row. m_id (fst row) = conversation_id" "join_farmers s" row]
  show ?thesis by (auto simp: rows)
qed

text \<open>
  Claim C6. Every turn returned by \<^verbatim>\<open>get_recent_conversations\<close> and the record returned by
  \<^verbatim>\<open>get_conversation_details\<close> come from a stored message. When its role is \<^verbatim>\<open>user\<close>,
  \<^verbatim>\<open>user_input\<close> is its text and \<^verbatim>\<open>ava_response\<close> is the empty string; when its role is
  \<^verbatim>\<open>assistant\<close>, \<^verbatim>\<open>ava_response\<close> is its text and \<^verbatim>\<open>user_input\<close> is the empty string.
\<close>

theorem role_decides_slot:
  "(t \<in> set (get_recent_conversations flt s farmer_id limit) \<longrightarrow>
      (\<exists>m\<in>set (t_incoming_messages s). turn_id t = m_id m
         \<and> (m_role m = ''user'' \<longrightarrow>
              turn_user_input t = m_message_text m \<and> turn_ava_response t = Some [])
         \<and> (m_role m = ''assistant'' \<longrightarrow>
              turn_ava_response t = m_message_text m \<and> turn_user_input t = Some [])))
   \<and> (get_conversation_details flt s conversation_id = Some d \<longrightarrow>
      (\<exists>m\<in>set (t_incoming_messages s). m_id m = conversation_id \<and> det_id d = conversation_id
         \<and> (m_role m = ''user'' \<longrightarrow>
              det_user_input d = m_message_text m \<and> det_ava_response d = Some [])
         \<and> (m_role m = ''assistant'' \<longrightarrow>
              det_ava_response d = m_message_text m \<and> det_user_input d = Some [])))"
proof (intro conjI impI)
  assume "t \<in> set (get_recent_conversations flt s farmer_id limit)"
  from get_recent_conversations_rows [OF this]
  obtain m where "m \<in> set (t_incoming_messages s)" "t = turn_of m" by blast
  then show "\<exists>m\<in>set (t_incoming_messages s). turn_id t = m_id m
         \<and> (m_role m = ''user'' \<longrightarrow>
              turn_user_input t = m_message_text m \<and> turn_ava_response t = Some [])
         \<and> (m_role m = ''assistant'' \<longrightarrow>
              turn_ava_response t = m_message_text m \<and> turn_user_input t = Some [])"
    by (intro bexI [of _ m]) (simp_all add: turn_of_def)
next
  assume "get_conversation_details flt s conversation_id = Some d"
  from get_conversation_details_row [OF this]
  obtain row where row: "row \<in> set (join_farmers s)" "m_id (fst row) = conversation_id"
      "d = details_of row"
    by blast
  from row(1) have "fst row \<in> set (t_incoming_messages s)"
    by (simp add: join_farmers_rows)
  with row(2,3)
  show "\<exists>m\<in>set (t_incoming_messages s). m_id m = conversation_id \<and> det_id d = conversation_id
         \<and> (m_role m = ''user'' \<longrightarrow>
              det_user_input d = m_message_text m \<and> det_ava_response d = Some [])
         \<and> (m_role m = ''assistant'' \<longrightarrow>
              det_ava_response d = m_message_text m \<and> det_user_input d = Some [])"
    by (intro bexI [of _ "fst row"]) (simp_all add: details_of_def)
qed

theorem role_decides_slot_witness:
  "map turn_id (get_recent_conversations no_faults two_turns 1 10) = [11, 12]
   \<and> map turn_user_input (get_recent_conversations no_faults two_turns 1 10)
       = [Some ''When to sow?'', Some []]
   \<and> map turn_ava_response (get_recent_conversations no_faults two_turns 1 10)
       = [Some [], Some ''In April.'']
   \<and> map_option det_user_input (get_conversation_details no_faults two_turns 12) = Some (Some [])
   \<and> map_option det_ava_response (get_conversation_details no_faults two_turns 12)
       = Some (Some ''In April.'')"
proof -
  have run: "get_recent_conversations no_faults two_turns 1 10 =
      map turn_of (t_incoming_messages two_turns)"
    by (simp add: get_recent_conversations_def get_recent_conversations_body_def execute_def
        no_faults_def select_recent_def sql_limit_def two_turns_def green_acres_def)
  have det: "get_conversation_details no_faults two_turns 12 =
      Some (details_of (t_incoming_messages two_turns ! 1, hd (t_farmers two_turns)))"
    by (simp add: get_conversation_details_def get_conversation_details_body_def execute_def
        no_faults_def select_conversation_def join_farmers_def fetchone_def two_turns_def
        green_acres_def)
  have mem: "turn_of (hd (t_incoming_messages two_turns))
      \<in> set (get_recent_conversations no_faults two_turns 1 10)"
    unfolding run by (simp add: two_turns_def)
  from role_decides_slot [of "turn_of (hd (t_incoming_messages two_turns))" no_faults two_turns 1 10
      12 "details_of (t_incoming_messages two_turns ! 1, hd (t_farmers two_turns))"] mem det
  have "turn_user_input (turn_of (hd (t_incoming_messages two_turns))) = Some ''When to sow?''
      \<and> turn_ava_response (turn_of (hd (t_incoming_messages two_turns))) = Some []
      \<and> det_ava_response (details_of (t_incoming_messages two_turns ! 1, hd (t_farmers two_turns)))
          = Some ''In April.''
      \<and> det_user_input (details_of (t_incoming_messages two_turns ! 1, hd (t_farmers two_turns)))
          = Some []"
    by (simp add: two_turns_def green_acres_def turn_of_def details_of_def)
  then show ?thesis
    unfolding run det
    by (simp add: two_turns_def green_acres_def turn_of_def details_of_def)
qed

subsection \<open>\<^verbatim>\<open>get_farmer_fields\<close>\<close>

lemma left_join_crops_rows:
  "row \<in> set (left_join_crops s f) \<longleftrightarrow>
     fst row = f \<and>
     (case snd row of
        None \<Rightarrow> active_crops s f = []
      | Some c \<Rightarrow> c \<in> set (active_crops s f))"
  by (cases row; cases "active_crops s f") (auto simp: left_join_crops_def split: option.splits)

lemma select_farmer_fields_rows:
  "row \<in> set (select_farmer_fields s farmer_id) \<longleftrightarrow>
     fst row \<in> set (t_fields s) \<and> fd_farmer_id (fst row) = farmer_id
       \<and> row \<in> set (left_join_crops s (fst row))"
  by (auto simp: select_farmer_fields_def left_join_crops_rows)

lemma get_farmer_fields_running:
  "flt 0 = None \<Longrightarrow>
     get_farmer_fields flt s farmer_id = map field_view_of (select_farmer_fields s farmer_id)"
  by (simp add: get_farmer_fields_def get_farmer_fields_body_def execute_def)

lemma get_farmer_fields_rows:
  assumes "v \<in> set (get_farmer_fields flt s farmer_id)"
  shows "\<exists>row\<in>set (select_farmer_fields s farmer_id). v = field_view_of row"
proof (cases "flt 0")
  case None
  with assms show ?thesis by (auto simp: get_farmer_fields_running)
next
  case (Some e)
  with assms show ?thesis
    by (simp add: get_farmer_fields_def get_farmer_fields_body_def execute_def)
qed

lemma active_crops_none:
  "active_crops s f = [] \<longleftrightarrow>
     (\<forall>fc\<in>set (t_field_crops s). fc_field_id fc = fd_field_id f \<longrightarrow> fc_status fc \<noteq> Some ''active'')"
  by (auto simp: active_crops_def filter_empty_conv)

text \<open>
  Claim C7. When the store answers, every field of the farmer that has no row in
  \<^verbatim>\<open>field_crops\<close> with status \<^verbatim>\<open>active\<close> is in the result of \<^verbatim>\<open>get_farmer_fields\<close>, with
  crop, variety and planting date all \<^verbatim>\<open>None\<close>. Every returned record whose field has no
  active planting has these three \<^verbatim>\<open>None\<close>. Every returned record comes from a field of the
  farmer, and its size is \<open>0\<close> when a field with this id has the stored size NULL.
\<close>

theorem field_without_active_planting:
  "(flt 0 = None \<longrightarrow>
      (\<forall>f\<in>set (t_fields s).
          fd_farmer_id f = farmer_id
        \<and> (\<forall>fc\<in>set (t_field_crops s).
              fc_field_id fc = fd_field_id f \<longrightarrow> fc_status fc \<noteq> Some ''active'')
        \<longrightarrow> (\<exists>v\<in>set (get_farmer_fields flt s farmer_id).
               fv_field_id v = fd_field_id f \<and> fv_field_name v = fd_field_name f
             \<and> fv_current_crop v = None \<and> fv_variety v = None \<and> fv_planting_date v = None
             \<and> (fd_field_size f = None \<longrightarrow> fv_field_size v = 0))))
   \<and> (\<forall>v\<in>set (get_farmer_fields flt s farmer_id).
        (\<forall>fc\<in>set (t_field_crops s).
            fc_field_id fc = fv_field_id v \<longrightarrow> fc_status fc \<noteq> Some ''active'')
        \<longrightarrow> fv_current_crop v = None \<and> fv_variety v = None \<and> fv_planting_date v = None)
   \<and> (\<forall>v\<in>set (get_farmer_fields flt s farmer_id).
        \<exists>f\<in>set (t_fields s). fd_farmer_id f = farmer_id \<and> fv_field_id v = fd_field_id f
          \<and> fv_field_name v = fd_field_name f
          \<and> (fd_field_size f = None \<longrightarrow> fv_field_size v = 0))"
proof -
  have kept: "\<exists>v\<in>set (get_farmer_fields flt s farmer_id).
               fv_field_id v = fd_field_id f \<and> fv_field_name v = fd_field_name f
             \<and> fv_current_crop v = None \<and> fv_variety v = None \<and> fv_planting_date v = None
             \<and> (fd_field_size f = None \<longrightarrow> fv_field_size v = 0)"
    if ok: "flt 0 = None" and f: "f \<in> set (t_fields s)"
      and h: "fd_farmer_id f = farmer_id
        \<and> (\<forall>fc\<in>set (t_field_crops s).
              fc_field_id fc = fd_field_id f \<longrightarrow> fc_status fc \<noteq> Some ''active'')"
    for f
  proof -
    from h have "active_crops s f = []" by (simp add: active_crops_none)
    with f h have "(f, None) \<in> set (select_farmer_fields s farmer_id)"
      by (simp add: select_farmer_fields_rows left_join_crops_rows)
    then have "field_view_of (f, None) \<in> set (get_farmer_fields flt s farmer_id)"
      by (simp add: get_farmer_fields_running [of flt, OF ok])
    then show ?thesis
      by (rule bexI [rotated]) (simp add: field_view_of_def)
  qed
  have absent: "fv_current_crop v = None \<and> fv_variety v = None \<and> fv_planting_date v = None"
    if v: "v \<in> set (get_farmer_fields flt s farmer_id)"
      and h: "\<forall>fc\<in>set (t_field_crops s).
            fc_field_id fc = fv_field_id v \<longrightarrow> fc_status fc \<noteq> Some ''active''"
    for v
  proof -
    from get_farmer_fields_rows [OF v]
    obtain row where row: "row \<in> set (select_farmer_fields s farmer_id)" "v = field_view_of row"
      by blast
    from row(2) have "fv_field_id v = fd_field_id (fst row)" by (simp add: field_view_of_def)
    with h have "active_crops s (fst row) = []" by (simp add: active_crops_none)
    with row(1) have "snd row = None"
      by (cases "snd row") (auto simp: select_farmer_fields_rows left_join_crops_rows)
    with row(2) show ?thesis
      by (simp add: field_view_of_def)
  qed
  have origin: "\<exists>f\<in>set (t_fields s). fd_farmer_id f = farmer_id \<and> fv_field_id v = fd_field_id f
          \<and> fv_field_name v = fd_field_name f
          \<and> (fd_field_size f = None \<longrightarrow> fv_field_size v = 0)"
    if v: "v \<in> set (get_farmer_fields flt s farmer_id)" for v
  proof -
    from get_farmer_fields_rows [OF v]
    obtain row where row: "row \<in> set (select_farmer_fields s farmer_id)" "v = field_view_of row"
      by blast
    from row(1) have "fst row \<in> set (t_fields s)" "fd_farmer_id (fst row) = farmer_id"
      by (simp_all add: select_farmer_fields_rows)
    then show ?thesis
      by (intro bexI [of _ "fst row"]) (simp_all add: row(2) field_view_of_def)
  qed
  from kept absent origin show ?thesis by blast
qed

theorem field_without_active_planting_witness:
  "no_faults 0 = None
   \<and> fallow \<in> set (t_fields holdings)
   \<and> fd_field_size fallow = None
   \<and> map fv_field_id (get_farmer_fields no_faults holdings 1) = [20, 21]
   \<and> map fv_current_crop (get_farmer_fields no_faults holdings 1) = [None, Some ''maize'']
   \<and> map fv_variety (get_farmer_fields no_faults holdings 1) = [None, Some ''P9911'']
   \<and> map fv_planting_date (get_farmer_fields no_faults holdings 1) = [None, Some ''2024-04-09'']
   \<and> map fv_field_size (get_farmer_fields no_faults holdings 1) = [0, 5 / 2]"
proof -
  have ok: "no_faults 0 = None" by (simp add: no_faults_def)
  have sel: "select_farmer_fields holdings 1 =
      [(fallow, None), (planted, Some (hd (t_field_crops holdings)))]"
    by (simp add: select_farmer_fields_def left_join_crops_def active_crops_def holdings_def
        green_acres_def fallow_def planted_def asc_key_def less_char_def less_eq_char_def)
  have run: "get_farmer_fields no_faults holdings 1 =
      [field_view_of (fallow, None), field_view_of (planted, Some (hd (t_field_crops holdings)))]"
    by (simp add: get_farmer_fields_running [of no_faults, OF ok] sel)
  have f: "fallow \<in> set (t_fields holdings)" "fd_field_size fallow = None"
    by (simp_all add: holdings_def fallow_def)
  have "fv_current_crop (field_view_of (fallow, None)) = None
      \<and> fv_variety (field_view_of (fallow, None)) = None
      \<and> fv_planting_date (field_view_of (fallow, None)) = None
      \<and> fv_field_size (field_view_of (fallow, None)) = 0"
    using field_without_active_planting [of no_faults holdings 1] ok f
    unfolding run
    by (simp add: holdings_def green_acres_def fallow_def planted_def field_view_of_def)
  moreover have "isoformat \<lparr> year = 2024, month = 4, day = 9 \<rparr> = ''2024-04-09''"
    by code_simp
  ultimately show ?thesis
    using ok f unfolding run
    by (simp add: holdings_def green_acres_def fallow_def planted_def field_view_of_def)
qed

subsection \<open>\<^verbatim>\<open>get_conversations_for_approval\<close>\<close>

lemma distinct_on_subset: "set (distinct_on k xs) \<subseteq> set xs"
  by (induction k xs rule: distinct_on.induct) auto

lemma distinct_on_keys: "k ` set (distinct_on k xs) = k ` set xs"
  by (induction k xs rule: distinct_on.induct) auto

lemma distinct_on_distinct:
  fixes k :: "'a \<Rightarrow> 'k::linorder"
  shows "sorted (map k xs) \<Longrightarrow> distinct (map k (distinct_on k xs))"
proof (induction k xs rule: distinct_on.induct)
  case (3 k x y rows)
  show ?case
  proof (cases "k x = k y")
    case True
    with 3 show ?thesis by simp
  next
    case False
    from "3.prems" have "\<forall>z\<in>set (y # rows). k y \<le> k z" by auto
    moreover from "3.prems" False have "k x < k y" by auto
    ultimately have "\<forall>z\<in>set (y # rows). k x \<noteq> k z" by fastforce
    then have "k x \<notin> k ` set (distinct_on k (y # rows))"
      using distinct_on_subset [of k "y # rows"] by blast
    with 3 False show ?thesis by simp
  qed
qed simp_all

lemma distinct_on_first:
  fixes key :: "'a \<Rightarrow> 'k::linorder \<times> 't::linorder"
  assumes "sorted (map key xs)" "r \<in> set (distinct_on (\<lambda>x. fst (key x)) xs)" "y \<in> set xs"
    "fst (key y) = fst (key r)"
  shows "key r \<le> key y"
  using assms
proof (induction "\<lambda>x. fst (key x)" xs arbitrary: r y rule: distinct_on.induct)
  case 1
  then show ?case by simp
next
  case (2 x)
  then show ?case by simp
next
  case (3 x z rows)
  from "3.prems"(1) have xz: "key x \<le> key z" and xrows: "\<forall>w\<in>set rows. key x \<le> key w"
    and zrows: "\<forall>w\<in>set rows. key z \<le> key w"
    and s1: "sorted (map key (x # rows))" and s2: "sorted (map key (z # rows))"
    by auto
  show ?case
  proof (cases "fst (key x) = fst (key z)")
    case True
    with "3.prems"(2) have r: "r \<in> set (distinct_on (\<lambda>x. fst (key x)) (x # rows))" by simp
    show ?thesis
    proof (cases "y = z")
      case True
      with "3.prems"(4) \<open>fst (key x) = fst (key z)\<close> have "fst (key x) = fst (key r)" by simp
      from "3.hyps"(1) [OF \<open>fst (key x) = fst (key z)\<close> s1 r _ this] have "key r \<le> key x" by simp
      with xz True show ?thesis by simp
    next
      case False
      with "3.prems"(3) have "y \<in> set (x # rows)" by auto
      from "3.hyps"(1) [OF True s1 r this "3.prems"(4)] show ?thesis .
    qed
  next
    case False
    with "3.prems"(2) consider "r = x" | "r \<in> set (distinct_on (\<lambda>x. fst (key x)) (z # rows))"
      by auto
    then show ?thesis
    proof cases
      case 1
      with "3.prems"(3) xz xrows show ?thesis by auto
    next
      case 2
      show ?thesis
      proof (cases "y = x")
        case True
        from 2 distinct_on_subset have "r \<in> set (z # rows)" by fast
        with zrows have "key z \<le> key r" by auto
        with xz have "fst (key x) \<le> fst (key z)" "fst (key z) \<le> fst (key r)"
          by (auto simp: less_eq_prod_def)
        with "3.prems"(4) True False show ?thesis by simp
      next
        case ne: False
        with "3.prems"(3) have "y \<in> set (z # rows)" by auto
        from "3.hyps"(2) [OF False s2 2 this "3.prems"(4)] show ?thesis .
      qed
    qed
  qed
qed

lemma latest_messages_rows:
  assumes "row \<in> set (latest_messages s)"
  shows "row \<in> set (join_farmers s) \<and> m_role (fst row) = ''user''"
  using assms distinct_on_subset [of "\<lambda>row. m_farmer_id (fst row)"]
  unfolding latest_messages_def by fastforce

lemma sorted_fst_key:
  fixes key :: "'a \<Rightarrow> 'k::linorder \<times> 't::linorder"
  shows "sorted (map key xs) \<Longrightarrow> sorted (map (\<lambda>x. fst (key x)) xs)"
  by (induction xs) (auto simp: less_eq_prod_def)

lemma latest_messages_distinct:
  "distinct (map (\<lambda>row. m_farmer_id (fst row)) (latest_messages s))"
proof -
  let ?key = "\<lambda>row :: message_row \<times> farmer_row. (m_farmer_id (fst row), - m_timestamp (fst row))"
  let ?xs = "sort_key ?key (filter (\<lambda>row. m_role (fst row) = ''user'') (join_farmers s))"
  have "sorted (map ?key ?xs)" by (rule sorted_sort_key)
  from sorted_fst_key [OF this] have "sorted (map (\<lambda>row. m_farmer_id (fst row)) ?xs)"
    by simp
  then show ?thesis
    unfolding latest_messages_def by (rule distinct_on_distinct)
qed

lemma latest_messages_latest:
  assumes row: "row \<in> set (latest_messages s)"
    and m: "m \<in> set (t_incoming_messages s)" "m_farmer_id m = m_farmer_id (fst row)"
      "m_role m = ''user''"
  shows "m_timestamp m \<le> m_timestamp (fst row)"
proof -
  let ?key = "\<lambda>row :: message_row \<times> farmer_row. (m_farmer_id (fst row), - m_timestamp (fst row))"
  let ?xs = "sort_key ?key (filter (\<lambda>row. m_role (fst row) = ''user'') (join_farmers s))"
  from latest_messages_rows [OF row] have "snd row \<in> set (t_farmers s)"
      "m_farmer_id (fst row) = fr_id (snd row)"
    by (simp_all add: join_farmers_rows)
  with m have y: "(m, snd row) \<in> set ?xs" by (simp add: join_farmers_rows)
  have s: "sorted (map ?key ?xs)" by (rule sorted_sort_key)
  from row have r: "row \<in> set (distinct_on (\<lambda>x. fst (?key x)) ?xs)"
    by (simp add: latest_messages_def)
  from distinct_on_first [of ?key ?xs row "(m, snd row)", OF s r y] m(2)
  have "?key row \<le> ?key (m, snd row)" by simp
  with m(2) show ?thesis by (simp add: less_eq_prod_def)
qed

lemma latest_messages_farmers:
  "(\<lambda>row. m_farmer_id (fst row)) ` set (latest_messages s) =
     (\<lambda>row. m_farmer_id (fst row)) `
       {row \<in> set (join_farmers s). m_role (fst row) = ''user''}"
  unfolding latest_messages_def distinct_on_keys
  by (simp only: set_sort set_filter)

lemma select_for_approval_rows:
  "set (select_for_approval s) \<subseteq> set (latest_messages s)"
  "length (select_for_approval s) \<le> 100"
  "distinct (map (\<lambda>row. m_farmer_id (fst row)) (select_for_approval s))"
  "length (latest_messages s) \<le> 100 \<Longrightarrow> set (select_for_approval s) = set (latest_messages s)"
proof -
  show "set (select_for_approval s) \<subseteq> set (latest_messages s)"
    by (auto simp: select_for_approval_def dest: in_set_takeD)
  show "length (select_for_approval s) \<le> 100"
    by (simp add: select_for_approval_def)
  have "mset (map (\<lambda>row. m_farmer_id (fst row))
          (sort_key (\<lambda>row. - m_timestamp (fst row)) (latest_messages s))) =
        mset (map (\<lambda>row. m_farmer_id (fst row)) (latest_messages s))"
    by simp
  then have "distinct (map (\<lambda>row. m_farmer_id (fst row))
          (sort_key (\<lambda>row. - m_timestamp (fst row)) (latest_messages s)))"
    using latest_messages_distinct [of s] by (metis mset_eq_imp_distinct_iff)
  then show "distinct (map (\<lambda>row. m_farmer_id (fst row)) (select_for_approval s))"
    by (simp add: select_for_approval_def take_map [symmetric] distinct_take)
  show "set (select_for_approval s) = set (latest_messages s)"
    if "length (latest_messages s) \<le> 100"
    using that by (simp add: select_for_approval_def)
qed

lemma approval_rows:
  "\<exists>rows. unapproved (get_conversations_for_approval flt s) = map conv_of rows
      \<and> (rows = [] \<or> rows = select_for_approval s)
      \<and> (flt 0 = None \<longrightarrow> rows = select_for_approval s)"
  by (cases "flt 0")
    (simp_all add: get_conversations_for_approval_def get_conversations_for_approval_body_def
      execute_def)

text \<open>
  Claim C5. Every entry of the approval queue comes from a stored user message. When the text
  of that message has more than 100 characters, \<^verbatim>\<open>last_message\<close> is its first 100 characters
  followed by three dots, at most 103 characters; when the text has 100 characters or fewer,
  \<^verbatim>\<open>last_message\<close> is the text itself. (A NULL text gives the empty string.)
\<close>

theorem last_message_truncation:
  assumes "e \<in> set (unapproved (get_conversations_for_approval flt s))"
  shows "\<exists>m\<in>set (t_incoming_messages s).
           m_id m = conv_id e \<and> m_farmer_id m = conv_farmer_id e \<and> m_role m = ''user''
         \<and> (\<forall>t. m_message_text m = Some t \<and> length t > 100 \<longrightarrow>
               conv_last_message e = take 100 t @ ''...'' \<and> length (conv_last_message e) \<le> 103)
         \<and> (\<forall>t. m_message_text m = Some t \<and> length t \<le> 100 \<longrightarrow> conv_last_message e = t)
         \<and> (m_message_text m = None \<longrightarrow> conv_last_message e = [])"
proof -
  from approval_rows [of flt s] assms
  obtain row where "row \<in> set (select_for_approval s)" and e: "e = conv_of row"
    by auto
  with select_for_approval_rows(1) have "row \<in> set (latest_messages s)" by blast
  from latest_messages_rows [OF this]
  have m: "fst row \<in> set (t_incoming_messages s)" "m_role (fst row) = ''user''"
    by (simp_all add: join_farmers_rows)
  have long: "\<forall>t. m_message_text (fst row) = Some t \<and> length t > 100 \<longrightarrow>
           conv_last_message e = take 100 t @ ''...'' \<and> length (conv_last_message e) \<le> 103"
    by (auto simp: e conv_of_def truncate_message_def)
  have short: "\<forall>t. m_message_text (fst row) = Some t \<and> length t \<le> 100 \<longrightarrow>
           conv_last_message e = t"
    by (auto simp: e conv_of_def truncate_message_def or_str_def)
  have null: "m_message_text (fst row) = None \<longrightarrow> conv_last_message e = []"
    by (simp add: e conv_of_def truncate_message_def or_str_def)
  have ids: "m_id (fst row) = conv_id e" "m_farmer_id (fst row) = conv_farmer_id e"
    by (simp_all add: e conv_of_def)
  show ?thesis
    by (rule bexI [of _ "fst row"]) (intro conjI ids m(2) long short null, rule m(1))
qed

theorem last_message_truncation_witness:
  "map conv_id (unapproved (get_conversations_for_approval no_faults inbox)) = [13, 14]
   \<and> map conv_last_message (unapproved (get_conversations_for_approval no_faults inbox))
       = [replicate 100 CHR ''x'' @ ''...'', ''Rain?'']
   \<and> map length (map conv_last_message (unapproved (get_conversations_for_approval no_faults inbox)))
       = [103, 5]"
proof -
  have ids: "map conv_id (unapproved (get_conversations_for_approval no_faults inbox)) = [13, 14]"
    by code_simp
  have msgs: "map conv_last_message (unapproved (get_conversations_for_approval no_faults inbox))
       = [replicate 100 CHR ''x'' @ ''...'', ''Rain?'']"
    by code_simp
  from ids have "unapproved (get_conversations_for_approval no_faults inbox) \<noteq> []" by auto
  then have mem: "hd (unapproved (get_conversations_for_approval no_faults inbox))
      \<in> set (unapproved (get_conversations_for_approval no_faults inbox))"
    by simp
  from last_message_truncation [OF mem] msgs ids show ?thesis by simp
qed

lemma farmers_with_user_messages:
  "(\<lambda>row. m_farmer_id (fst row)) ` {row \<in> set (join_farmers s). m_role (fst row) = ''user''} =
     fr_id ` {f \<in> set (t_farmers s).
               \<exists>m\<in>set (t_incoming_messages s). m_farmer_id m = fr_id f \<and> m_role m = ''user''}"
proof (intro equalityI subsetI)
  fix i
  assume "i \<in> (\<lambda>row. m_farmer_id (fst row)) `
      {row \<in> set (join_farmers s). m_role (fst row) = ''user''}"
  then obtain row where "row \<in> set (join_farmers s)" "m_role (fst row) = ''user''"
      "i = m_farmer_id (fst row)"
    by auto
  then have "snd row \<in> set (t_farmers s)" "fst row \<in> set (t_incoming_messages s)"
      "m_farmer_id (fst row) = fr_id (snd row)" "i = fr_id (snd row)"
    by (simp_all add: join_farmers_rows)
  with \<open>m_role (fst row) = ''user''\<close>
  show "i \<in> fr_id ` {f \<in> set (t_farmers s).
               \<exists>m\<in>set (t_incoming_messages s). m_farmer_id m = fr_id f \<and> m_role m = ''user''}"
    by blast
next
  fix i
  assume "i \<in> fr_id ` {f \<in> set (t_farmers s).
               \<exists>m\<in>set (t_incoming_messages s). m_farmer_id m = fr_id f \<and> m_role m = ''user''}"
  then obtain f m where "f \<in> set (t_farmers s)" "m \<in> set (t_incoming_messages s)"
      "m_farmer_id m = fr_id f" "m_role m = ''user''" "i = fr_id f"
    by auto
  then have "(m, f) \<in> {row \<in> set (join_farmers s). m_role (fst row) = ''user''}"
      "i = m_farmer_id (fst (m, f))"
    by (simp_all add: join_farmers_rows)
  then show "i \<in> (\<lambda>row. m_farmer_id (fst row)) `
      {row \<in> set (join_farmers s). m_role (fst row) = ''user''}"
    by (rule image_eqI [rotated])
qed

lemma latest_messages_length:
  "length (latest_messages s) =
     card (fr_id ` {f \<in> set (t_farmers s).
               \<exists>m\<in>set (t_incoming_messages s). m_farmer_id m = fr_id f \<and> m_role m = ''user''})"
proof -
  have "length (latest_messages s) = length (map (\<lambda>row. m_farmer_id (fst row)) (latest_messages s))"
    by simp
  also have "\<dots> = card (set (map (\<lambda>row. m_farmer_id (fst row)) (latest_messages s)))"
    by (rule distinct_card [symmetric]) (rule latest_messages_distinct)
  also have "\<dots> = card ((\<lambda>row. m_farmer_id (fst row)) ` set (latest_messages s))"
    by simp
  finally show ?thesis
    by (simp only: latest_messages_farmers farmers_with_user_messages)
qed

lemma farmers_with_user_messages_bound:
  "card (fr_id ` {f \<in> set (t_farmers s).
               \<exists>m\<in>set (t_incoming_messages s). m_farmer_id m = fr_id f \<and> m_role m = ''user''})
     \<le> length (t_farmers s)"
proof -
  have "card (fr_id ` {f \<in> set (t_farmers s).
               \<exists>m\<in>set (t_incoming_messages s). m_farmer_id m = fr_id f \<and> m_role m = ''user''})
      \<le> card (fr_id ` set (t_farmers s))"
    by (intro card_mono) auto
  also have "\<dots> \<le> card (set (t_farmers s))" by (intro card_image_le) simp
  also have "\<dots> \<le> length (t_farmers s)" by (rule card_length)
  finally show ?thesis .
qed

text \<open>
  Claim C2, as the code has it. No two entries of \<^verbatim>\<open>unapproved\<close> carry the same farmer id,
  and there are at most 100 entries. Every entry holds a user message of its farmer, a farmer
  with a row in \<^verbatim>\<open>farmers\<close>, and no user message of that farmer is more recent. When the
  store answers and at most 100 farmers have a user message, every such farmer has an entry,
  hence exactly one.
\<close>

theorem approval_queue_one_per_farmer:
  "distinct (map conv_farmer_id (unapproved (get_conversations_for_approval flt s)))
   \<and> length (unapproved (get_conversations_for_approval flt s)) \<le> 100
   \<and> (\<forall>e\<in>set (unapproved (get_conversations_for_approval flt s)).
        \<exists>m\<in>set (t_incoming_messages s).
            m_id m = conv_id e \<and> m_farmer_id m = conv_farmer_id e \<and> m_role m = ''user''
          \<and> m_timestamp m = conv_timestamp e
          \<and> (\<exists>f\<in>set (t_farmers s). fr_id f = conv_farmer_id e)
          \<and> (\<forall>m'\<in>set (t_incoming_messages s).
                m_farmer_id m' = conv_farmer_id e \<and> m_role m' = ''user''
                \<longrightarrow> m_timestamp m' \<le> m_timestamp m))
   \<and> (flt 0 = None
        \<and> card (fr_id ` {f \<in> set (t_farmers s).
               \<exists>m\<in>set (t_incoming_messages s). m_farmer_id m = fr_id f \<and> m_role m = ''user''})
            \<le> 100
      \<longrightarrow> (\<forall>f\<in>set (t_farmers s).
            (\<exists>m\<in>set (t_incoming_messages s). m_farmer_id m = fr_id f \<and> m_role m = ''user'')
            \<longrightarrow> fr_id f \<in> set (map conv_farmer_id
                    (unapproved (get_conversations_for_approval flt s)))))"
proof -
  let ?q = "unapproved (get_conversations_for_approval flt s)"
  from approval_rows [of flt s]
  obtain rows where q: "?q = map conv_of rows"
    and rows: "rows = [] \<or> rows = select_for_approval s"
    and running: "flt 0 = None \<longrightarrow> rows = select_for_approval s"
    by auto
  have fid: "conv_farmer_id \<circ> conv_of = (\<lambda>row. m_farmer_id (fst row))"
    by (simp add: fun_eq_iff conv_of_def)
  have one: "distinct (map conv_farmer_id ?q)"
    using rows select_for_approval_rows(3) [of s] by (auto simp: q fid)
  have cap: "length ?q \<le> 100"
    using rows select_for_approval_rows(2) [of s] by (auto simp: q)
  have latest: "\<exists>m\<in>set (t_incoming_messages s).
            m_id m = conv_id e \<and> m_farmer_id m = conv_farmer_id e \<and> m_role m = ''user''
          \<and> m_timestamp m = conv_timestamp e
          \<and> (\<exists>f\<in>set (t_farmers s). fr_id f = conv_farmer_id e)
          \<and> (\<forall>m'\<in>set (t_incoming_messages s).
                m_farmer_id m' = conv_farmer_id e \<and> m_role m' = ''user''
                \<longrightarrow> m_timestamp m' \<le> m_timestamp m)"
    if e: "e \<in> set ?q" for e
  proof -
    from e rows obtain row where "row \<in> set (select_for_approval s)" and c: "e = conv_of row"
      by (auto simp: q)
    with select_for_approval_rows(1) have row: "row \<in> set (latest_messages s)" by blast
    from latest_messages_rows [OF row]
    have m: "fst row \<in> set (t_incoming_messages s)" and u: "m_role (fst row) = ''user''"
      and f: "snd row \<in> set (t_farmers s)" and j: "m_farmer_id (fst row) = fr_id (snd row)"
      by (simp_all add: join_farmers_rows)
    have ids: "m_id (fst row) = conv_id e" "m_farmer_id (fst row) = conv_farmer_id e"
        "m_timestamp (fst row) = conv_timestamp e"
      by (simp_all add: c conv_of_def)
    from f j ids(2) have farmer: "\<exists>f\<in>set (t_farmers s). fr_id f = conv_farmer_id e"
      by (intro bexI [of _ "snd row"]) simp_all
    have newest: "\<forall>m'\<in>set (t_incoming_messages s).
                m_farmer_id m' = conv_farmer_id e \<and> m_role m' = ''user''
                \<longrightarrow> m_timestamp m' \<le> m_timestamp (fst row)"
      using latest_messages_latest [OF row] ids(2) by simp
    show ?thesis
      by (rule bexI [of _ "fst row"]) (intro conjI ids u farmer newest, rule m)
  qed
  have every: "fr_id f \<in> set (map conv_farmer_id ?q)"
    if ok: "flt 0 = None"
      and few: "card (fr_id ` {f \<in> set (t_farmers s).
               \<exists>m\<in>set (t_incoming_messages s). m_farmer_id m = fr_id f \<and> m_role m = ''user''})
            \<le> 100"
      and f: "f \<in> set (t_farmers s)"
      and has: "\<exists>m\<in>set (t_incoming_messages s). m_farmer_id m = fr_id f \<and> m_role m = ''user''"
    for f
  proof -
    from few have "length (latest_messages s) \<le> 100" by (simp only: latest_messages_length)
    then have "set (select_for_approval s) = set (latest_messages s)"
      by (rule select_for_approval_rows(4))
    with ok running have "set (map conv_farmer_id ?q) =
        (\<lambda>row. m_farmer_id (fst row)) ` set (latest_messages s)"
      by (simp add: q fid)
    also have "\<dots> = fr_id ` {f \<in> set (t_farmers s).
               \<exists>m\<in>set (t_incoming_messages s). m_farmer_id m = fr_id f \<and> m_role m = ''user''}"
      by (simp only: latest_messages_farmers farmers_with_user_messages)
    finally show ?thesis using f has by blast
  qed
  from one cap latest every show ?thesis by blast
qed

theorem approval_queue_one_per_farmer_witness:
  "no_faults 0 = None
   \<and> card (fr_id ` {f \<in> set (t_farmers inbox).
         \<exists>m\<in>set (t_incoming_messages inbox). m_farmer_id m = fr_id f \<and> m_role m = ''user''})
       \<le> 100
   \<and> map conv_farmer_id (unapproved (get_conversations_for_approval no_faults inbox)) = [1, 8]
   \<and> map conv_timestamp (unapproved (get_conversations_for_approval no_faults inbox))
       = [1005, 1003]
   \<and> distinct (map conv_farmer_id (unapproved (get_conversations_for_approval no_faults inbox)))"
proof -
  have ok: "no_faults 0 = None" by (simp add: no_faults_def)
  have "length (t_farmers inbox) = 2" by (simp add: inbox_def green_acres_def)
  with farmers_with_user_messages_bound [of inbox]
  have few: "card (fr_id ` {f \<in> set (t_farmers inbox).
         \<exists>m\<in>set (t_incoming_messages inbox). m_farmer_id m = fr_id f \<and> m_role m = ''user''})
       \<le> 100"
    by simp
  have ids: "map conv_farmer_id (unapproved (get_conversations_for_approval no_faults inbox)) = [1, 8]"
    by code_simp
  have ts: "map conv_timestamp (unapproved (get_conversations_for_approval no_faults inbox))
      = [1005, 1003]"
    by code_simp
  from approval_queue_one_per_farmer [of no_faults inbox] ok few ids ts show ?thesis
    by simp
qed

text \<open>With 101 farmers who each sent a user message, farmer 100, whose message is the oldest,
  has no entry.\<close>

theorem approval_queue_every_farmer_counterexample:
  "fr_id (t_farmers crowd ! 100) = 100
   \<and> m_farmer_id (t_incoming_messages crowd ! 100) = 100
   \<and> m_role (t_incoming_messages crowd ! 100) = ''user''
   \<and> 100 \<notin> set (map conv_farmer_id (unapproved (get_conversations_for_approval no_faults crowd)))"
  by code_simp

subsection \<open>\<^verbatim>\<open>get_all_farmers\<close>: limit and order\<close>

lemma named_rows_sorted:
  "\<forall>r\<in>set rows. truthy (fr_farm_name r) \<Longrightarrow>
   sorted (map (\<lambda>r. asc_key (fr_farm_name r)) rows) \<Longrightarrow>
   sorted (map sum_farm_name (map farmer_summary_of rows))"
  by (induction rows)
    (auto simp: asc_key_def truthy_def farmer_summary_of_def or_str_def less_eq_prod_def
      split: option.splits)

text \<open>
  Claim C8, as the code has it. \<^verbatim>\<open>get_all_farmers\<close> with limit \<open>k\<close> returns at most \<open>k\<close>
  entries (none for a negative \<open>k\<close>, which the store rejects). The entries are in ascending
  order of the stored farm name, a NULL name last. The returned farm names are non-decreasing
  when every stored farm name is there (neither NULL nor empty), so that no name is replaced
  by \<^verbatim>\<open>"Unknown Farm"\<close>.
\<close>

theorem get_all_farmers_limit_and_order:
  "length (get_all_farmers flt s limit) \<le> nat limit
   \<and> (\<exists>rows. get_all_farmers flt s limit = map farmer_summary_of rows
         \<and> set rows \<subseteq> set (t_farmers s)
         \<and> sorted (map (\<lambda>r. asc_key (fr_farm_name r)) rows))
   \<and> ((\<forall>r\<in>set (t_farmers s). truthy (fr_farm_name r))
        \<longrightarrow> sorted (map sum_farm_name (get_all_farmers flt s limit)))"
proof -
  from get_all_farmers_rows [of flt s limit]
  obtain rows where run: "get_all_farmers flt s limit = map farmer_summary_of rows"
    and sub: "set rows \<subseteq> set (t_farmers s)" and len: "length rows \<le> nat limit"
    and ord: "sorted (map (\<lambda>r. asc_key (fr_farm_name r)) rows)"
    by auto
  have "sorted (map sum_farm_name (get_all_farmers flt s limit))"
    if "\<forall>r\<in>set (t_farmers s). truthy (fr_farm_name r)"
  proof -
    from that sub have "\<forall>r\<in>set rows. truthy (fr_farm_name r)" by blast
    from named_rows_sorted [OF this ord] show ?thesis by (simp only: run)
  qed
  moreover from run len have "length (get_all_farmers flt s limit) \<le> nat limit" by simp
  ultimately show ?thesis using run sub ord by blast
qed

theorem get_all_farmers_limit_and_order_witness:
  "map sum_farm_name (get_all_farmers no_faults directory 2) = [''Green Acres'', ''Hilltop'']
   \<and> length (get_all_farmers no_faults directory 2) \<le> nat 2
   \<and> sorted (map sum_farm_name (get_all_farmers no_faults directory 2))"
proof -
  have named: "\<forall>r\<in>set (t_farmers directory). truthy (fr_farm_name r)"
    by (simp add: directory_def green_acres_def anonymous_def padded_def truthy_def)
  have names: "map sum_farm_name (get_all_farmers no_faults directory 2)
      = [''Green Acres'', ''Hilltop'']"
    by code_simp
  from get_all_farmers_limit_and_order [of no_faults directory 2] named names
  show ?thesis by simp
qed

text \<open>With farm names \<^verbatim>\<open>Apple\<close>, NULL and \<^verbatim>\<open>Zebra\<close> the rows come as Apple, Zebra, NULL and
  the NULL name is returned as \<^verbatim>\<open>Unknown Farm\<close>, after \<^verbatim>\<open>Zebra\<close>.\<close>

theorem get_all_farmers_order_counterexample:
  "map sum_farm_name (get_all_farmers no_faults orchard 100)
     = [''Apple'', ''Zebra'', ''Unknown Farm'']
   \<and> \<not> sorted (map sum_farm_name (get_all_farmers no_faults orchard 100))"
  by code_simp

end
